theory Spec2Isabelle
  imports Complex_Main
begin

section \<open>Values, errors and tensors\<close>

text \<open>
  The program is \<^verbatim>\<open>src/preprocess.py\<close>: the class \<^verbatim>\<open>OnlinePreprocessor\<close> with its
  constructor, \<^verbatim>\<open>forward\<close> (with the nested \<^verbatim>\<open>select_feat\<close>) and \<^verbatim>\<open>istft\<close>.

  Python exceptions are values of \<open>error\<close>; a function that may raise returns
  \<open>error + 'a\<close> with \<open>Inl\<close> for the exception. An \<^verbatim>\<open>assert\<close> of the source raises
  \<open>AssertionError\<close>, tagged here with the asserted expression.
\<close>

datatype error =
    NameError string
  | AssertionError string
  | AttributeError string
  | KeyError string
  | IndexError
  | TypeError
  | ValueError
  | RuntimeError
  | ZeroDivisionError

definition bindE :: "error + 'a \<Rightarrow> ('a \<Rightarrow> error + 'b) \<Rightarrow> error + 'b" where
  "bindE m f = (case m of Inl e \<Rightarrow> Inl e | Inr x \<Rightarrow> f x)"

fun mapE :: "('a \<Rightarrow> error + 'b) \<Rightarrow> 'a list \<Rightarrow> error + 'b list" where
  "mapE f [] = Inr []"
| "mapE f (x # xs) = bindE (f x) (\<lambda>y. bindE (mapE f xs) (\<lambda>ys. Inr (y # ys)))"

text \<open>
  Tensor elements. The source computes in IEEE floating point; the model keeps the
  special values (\<open>NaN\<close> and the two infinities) and computes exactly, in the reals,
  on finite values. Rounding, overflow and the sign of zero are not modelled.
\<close>

datatype fval = Fin real | PInf | NInf | NaN

text \<open>
  A tensor is its shape and its elements in row-major order, as a contiguous torch
  tensor stores them.
\<close>

datatype 'a tensor = Tensor (shape: "nat list") (data: "'a list")

type_synonym ftensor = "fval tensor"

definition wf :: "'a tensor \<Rightarrow> bool" where
  "wf t \<longleftrightarrow> length (data t) = prod_list (shape t)"

definition dim :: "'a tensor \<Rightarrow> nat" where
  "dim t = length (shape t)"

section \<open>Element arithmetic\<close>

text \<open>
  IEEE arithmetic on \<open>fval\<close>: exact on finite operands, with the usual results on
  \<open>NaN\<close> and the infinities. A zero divisor is taken as \<open>+0\<close>.
\<close>

fun is_fin :: "fval \<Rightarrow> bool" where
  "is_fin (Fin a) = True"
| "is_fin _ = False"

fun fpos :: "fval \<Rightarrow> bool" where
  "fpos (Fin a) = (0 < a)"
| "fpos PInf = True"
| "fpos NInf = False"
| "fpos NaN = False"

fun fadd :: "fval \<Rightarrow> fval \<Rightarrow> fval" where
  "fadd (Fin a) (Fin b) = Fin (a + b)"
| "fadd NaN _ = NaN"
| "fadd _ NaN = NaN"
| "fadd PInf NInf = NaN"
| "fadd NInf PInf = NaN"
| "fadd PInf _ = PInf"
| "fadd _ PInf = PInf"
| "fadd NInf _ = NInf"
| "fadd _ NInf = NInf"

fun fneg :: "fval \<Rightarrow> fval" where
  "fneg (Fin a) = Fin (- a)"
| "fneg PInf = NInf"
| "fneg NInf = PInf"
| "fneg NaN = NaN"

definition fsub :: "fval \<Rightarrow> fval \<Rightarrow> fval" where
  "fsub x y = fadd x (fneg y)"

fun fmul :: "fval \<Rightarrow> fval \<Rightarrow> fval" where
  "fmul (Fin a) (Fin b) = Fin (a * b)"
| "fmul NaN _ = NaN"
| "fmul _ NaN = NaN"
| "fmul x y = (if x = Fin 0 \<or> y = Fin 0 then NaN else if fpos x = fpos y then PInf else NInf)"

fun fdiv :: "fval \<Rightarrow> fval \<Rightarrow> fval" where
  "fdiv (Fin a) (Fin b) =
     (if b \<noteq> 0 then Fin (a / b) else if a = 0 then NaN else if 0 < a then PInf else NInf)"
| "fdiv NaN _ = NaN"
| "fdiv _ NaN = NaN"
| "fdiv (Fin a) _ = Fin 0"
| "fdiv x (Fin b) = (if fpos x = (0 \<le> b) then PInf else NInf)"
| "fdiv _ _ = NaN"

fun fsqrt :: "fval \<Rightarrow> fval" where
  "fsqrt (Fin a) = (if a < 0 then NaN else Fin (sqrt a))"
| "fsqrt PInf = PInf"
| "fsqrt NInf = NaN"
| "fsqrt NaN = NaN"

text \<open>
  The logarithm: \<open>NaN\<close> below zero and \<open>-inf\<close> at zero. (The \<open>ln\<close> of HOL is total
  and is used on positive arguments only.)
\<close>

fun flog :: "fval \<Rightarrow> fval" where
  "flog (Fin a) = (if a < 0 then NaN else if a = 0 then NInf else Fin (ln a))"
| "flog PInf = PInf"
| "flog NInf = NaN"
| "flog NaN = NaN"

fun fcos :: "fval \<Rightarrow> fval" where
  "fcos (Fin a) = Fin (cos a)"
| "fcos _ = NaN"

fun fsin :: "fval \<Rightarrow> fval" where
  "fsin (Fin a) = Fin (sin a)"
| "fsin _ = NaN"

text \<open>
  \<^verbatim>\<open>pow\<close> with a scalar exponent. The exponents \<open>1/2\<close> and \<open>-1/2\<close> are evaluated
  as \<^verbatim>\<open>sqrt\<close> and as the reciprocal of \<^verbatim>\<open>sqrt\<close>, so that \<open>-inf\<close> gives \<open>NaN\<close> there;
  the other exponents follow the \<open>pow\<close> of the floating-point standard.
\<close>

fun pow_std :: "fval \<Rightarrow> real \<Rightarrow> fval" where
  "pow_std (Fin a) p =
     (if 0 < a then Fin (a powr p)
      else if a = 0 then (if 0 < p then Fin 0 else if p = 0 then Fin 1 else PInf)
      else if p = of_int \<lfloor>p\<rfloor> then Fin (a powi \<lfloor>p\<rfloor>) else NaN)"
| "pow_std PInf p = (if 0 < p then PInf else if p = 0 then Fin 1 else Fin 0)"
| "pow_std NInf p =
     (if p = 0 then Fin 1 else if p < 0 then Fin 0
      else if p = of_int \<lfloor>p\<rfloor> \<and> odd \<lfloor>p\<rfloor> then NInf else PInf)"
| "pow_std NaN p = (if p = 0 then Fin 1 else NaN)"

definition fpow :: "fval \<Rightarrow> real \<Rightarrow> fval" where
  "fpow x p =
     (if p = 1 / 2 then fsqrt x
      else if p = - (1 / 2) then fdiv (Fin 1) (fsqrt x)
      else pow_std x p)"


definition fsum :: "fval list \<Rightarrow> fval" where
  "fsum xs = foldl fadd (Fin 0) xs"

text \<open>\<^verbatim>\<open>mean\<close>: the sum over the count; \<open>NaN\<close> on no elements.\<close>

definition fmean :: "fval list \<Rightarrow> fval" where
  "fmean xs = fdiv (fsum xs) (Fin (real (length xs)))"

text \<open>
  \<^verbatim>\<open>std\<close> of torch: the unbiased estimate, the squared deviations summed and divided
  by \<open>max 0 (n - 1)\<close>; \<open>NaN\<close> on fewer than two elements.
\<close>

definition fstd :: "fval list \<Rightarrow> fval" where
  "fstd xs =
     (let m = fmean xs in
      fsqrt (fdiv (fsum (map (\<lambda>x. fmul (fsub x m) (fsub x m)) xs))
                  (Fin (real (length xs - 1)))))"

section \<open>Tensor operations\<close>

definition zeros :: "nat list \<Rightarrow> ftensor" where
  "zeros s = Tensor s (replicate (prod_list s) (Fin 0))"

definition map_tensor :: "('a \<Rightarrow> 'b) \<Rightarrow> 'a tensor \<Rightarrow> 'b tensor" where
  "map_tensor f t = Tensor (shape t) (map f (data t))"

text \<open>
  \<^verbatim>\<open>reshape\<close> and \<^verbatim>\<open>view\<close>: the elements stay in place and the shape changes. One
  entry of the target may be \<open>-1\<close> and is then inferred; torch refuses to infer it
  when the known entries multiply to zero or do not divide the element count.
\<close>

definition infer_shape :: "nat \<Rightarrow> int list \<Rightarrow> error + nat list" where
  "infer_shape n tgt =
     (if (\<exists>d \<in> set tgt. d < - 1) \<or> 1 < length (filter (\<lambda>d. d = - 1) tgt) then Inl RuntimeError
      else
        let known = prod_list (map nat (filter (\<lambda>d. d \<noteq> - 1) tgt)) in
        if - 1 \<in> set tgt then
          (if known = 0 \<or> n mod known \<noteq> 0 then Inl RuntimeError
           else Inr (map (\<lambda>d. if d = - 1 then n div known else nat d) tgt))
        else if known = n then Inr (map nat tgt)
        else Inl RuntimeError)"

definition reshape :: "'a tensor \<Rightarrow> int list \<Rightarrow> error + 'a tensor" where
  "reshape t tgt = bindE (infer_shape (length (data t)) tgt) (\<lambda>s. Inr (Tensor s (data t)))"

text \<open>
  Exchanging two adjacent axes. The elements are seen as an array indexed
  \<open>(h, i, j, k)\<close> with \<open>i < a\<close>, \<open>j < b\<close>, \<open>k < c\<close>; the result, indexed \<open>(h, j, i, k)\<close>,
  is laid out contiguously.
\<close>

definition swap_axes :: "nat \<Rightarrow> nat \<Rightarrow> nat \<Rightarrow> 'a list \<Rightarrow> 'a list" where
  "swap_axes a b c xs =
     map (\<lambda>q. xs ! ((((q div (c * a * b)) * a + (q div c) mod a) * b + (q div (c * a)) mod b) * c
                    + q mod c))
         [0..<length xs]"

text \<open>\<^verbatim>\<open>t.transpose(-1, -2).contiguous()\<close>\<close>

definition transpose_last2 :: "'a tensor \<Rightarrow> error + 'a tensor" where
  "transpose_last2 t =
     (if dim t < 2 then Inl IndexError
      else
        let s = shape t; r = length s in
        Inr (Tensor (take (r - 2) s @ [s ! (r - 1), s ! (r - 2)])
                    (swap_axes (s ! (r - 2)) (s ! (r - 1)) 1 (data t))))"

text \<open>\<^verbatim>\<open>t.transpose(-2, -3).contiguous()\<close>\<close>

definition transpose_23 :: "'a tensor \<Rightarrow> error + 'a tensor" where
  "transpose_23 t =
     (if dim t < 3 then Inl IndexError
      else
        let s = shape t; r = length s in
        Inr (Tensor (take (r - 3) s @ [s ! (r - 2), s ! (r - 3), s ! (r - 1)])
                    (swap_axes (s ! (r - 3)) (s ! (r - 2)) (s ! (r - 1)) (data t))))"

text \<open>An index of Python or torch: negative values count from the end.\<close>

definition norm_index :: "nat \<Rightarrow> int \<Rightarrow> error + nat" where
  "norm_index n i =
     (if - int n \<le> i \<and> i < int n then Inr (nat (if i < 0 then i + int n else i))
      else Inl IndexError)"

text \<open>\<^verbatim>\<open>t.select(dim=-3, index=i)\<close>: block \<open>i\<close> of the third axis from the end.\<close>

definition select3 :: "'a tensor \<Rightarrow> int \<Rightarrow> error + 'a tensor" where
  "select3 t i =
     (if dim t < 3 then Inl IndexError
      else
        let s = shape t; r = length s;
            C = s ! (r - 3); D = s ! (r - 2); T = s ! (r - 1); pre = take (r - 3) s in
        bindE (norm_index C i) (\<lambda>c.
        Inr (Tensor (pre @ [D, T])
               (concat (map (\<lambda>b. take (D * T) (drop ((b * C + c) * (D * T)) (data t)))
                            [0..<prod_list pre])))))"

text \<open>
  \<^verbatim>\<open>torch.cat(ts, dim=-2)\<close>: the tensors agree in rank and in every axis but the
  second from the end; for each index of the leading axes the blocks follow one
  another in list order.
\<close>

definition cat2 :: "'a tensor list \<Rightarrow> error + 'a tensor" where
  "cat2 ts =
     (case ts of
        [] \<Rightarrow> Inl RuntimeError
      | t0 # _ \<Rightarrow>
          if dim t0 < 2 then Inl IndexError
          else
            let r = dim t0; pre = take (r - 2) (shape t0); T = last (shape t0) in
            if \<exists>t \<in> set ts. dim t \<noteq> r \<or> take (r - 2) (shape t) \<noteq> pre \<or> last (shape t) \<noteq> T
            then Inl RuntimeError
            else
              Inr (Tensor (pre @ [sum_list (map (\<lambda>t. shape t ! (r - 2)) ts), T])
                     (concat (map (\<lambda>b. concat (map (\<lambda>t. take (shape t ! (r - 2) * T)
                                                          (drop (b * (shape t ! (r - 2) * T)) (data t))) ts))
                                  [0..<prod_list pre]))))"

text \<open>
  \<^verbatim>\<open>t.narrow(-2, start, len)\<close>: rows \<open>start\<close> to \<open>start + len - 1\<close> of the second axis
  from the end. The source does not call it; it names a block of a stacked feature.
\<close>

definition narrow2 :: "'a tensor \<Rightarrow> nat \<Rightarrow> nat \<Rightarrow> 'a tensor" where
  "narrow2 t start len =
     (let s = shape t; r = length s; D = s ! (r - 2); T = s ! (r - 1); pre = take (r - 2) s in
      Tensor (pre @ [len, T])
        (concat (map (\<lambda>b. take (len * T) (drop ((b * D + start) * T) (data t)))
                     [0..<prod_list pre])))"

text \<open>
  Reductions along the last axis with \<^verbatim>\<open>keepdim=True\<close>: one value for each row.
\<close>

definition reduce_last :: "('a list \<Rightarrow> 'b) \<Rightarrow> 'a tensor \<Rightarrow> 'b tensor" where
  "reduce_last f t =
     (let s = shape t; T = last s in
      Tensor (butlast s @ [1])
        (map (\<lambda>r. f (take T (drop (r * T) (data t)))) [0..<prod_list (butlast s)]))"

text \<open>
  An element-wise operation of a tensor of shape \<open>pre @ [T]\<close> with one of shape
  \<open>pre @ [1]\<close>: the second operand is broadcast along the last axis.
\<close>

definition bcast_last :: "('a \<Rightarrow> 'b \<Rightarrow> 'c) \<Rightarrow> 'a tensor \<Rightarrow> 'b tensor \<Rightarrow> 'c tensor" where
  "bcast_last f t m =
     Tensor (shape t)
       (map (\<lambda>q. f (data t ! q) (data m ! (q div last (shape t)))) [0..<length (data t)])"

text \<open>
  Broadcasting in general, for the product in \<^verbatim>\<open>istft\<close>: shapes are aligned at the
  right; two sizes agree when they are equal or one of them is 1.
\<close>

fun bshape_rev :: "nat list \<Rightarrow> nat list \<Rightarrow> error + nat list" where
  "bshape_rev [] ys = Inr ys"
| "bshape_rev xs [] = Inr xs"
| "bshape_rev (x # xs) (y # ys) =
     (if x = y \<or> y = 1 then bindE (bshape_rev xs ys) (\<lambda>r. Inr (x # r))
      else if x = 1 then bindE (bshape_rev xs ys) (\<lambda>r. Inr (y # r))
      else Inl RuntimeError)"

definition bshape :: "nat list \<Rightarrow> nat list \<Rightarrow> error + nat list" where
  "bshape s1 s2 = bindE (bshape_rev (rev s1) (rev s2)) (\<lambda>r. Inr (rev r))"

fun unravel :: "nat list \<Rightarrow> nat \<Rightarrow> nat list" where
  "unravel [] q = []"
| "unravel (d # ds) q = (q div prod_list ds) mod d # unravel ds q"

definition ravel :: "nat list \<Rightarrow> nat list \<Rightarrow> nat" where
  "ravel s ix = foldl (\<lambda>acc (d, i). acc * d + i) 0 (zip s ix)"

definition bindex :: "nat list \<Rightarrow> nat list \<Rightarrow> nat \<Rightarrow> nat" where
  "bindex s st q =
     ravel st (map2 (\<lambda>d i. if d = 1 then 0 else i) st (drop (length s - length st) (unravel s q)))"

definition bcast2 :: "('a \<Rightarrow> 'b \<Rightarrow> 'c) \<Rightarrow> 'a tensor \<Rightarrow> 'b tensor \<Rightarrow> error + 'c tensor" where
  "bcast2 f t u =
     bindE (bshape (shape t) (shape u)) (\<lambda>s.
     Inr (Tensor s (map (\<lambda>q. f (data t ! bindex s (shape t) q) (data u ! bindex s (shape u) q))
                        [0..<prod_list s])))"

text \<open>\<^verbatim>\<open>t.unsqueeze(-1)\<close>\<close>

definition unsqueeze_last :: "'a tensor \<Rightarrow> 'a tensor" where
  "unsqueeze_last t = Tensor (shape t @ [1]) (data t)"

text \<open>\<^verbatim>\<open>torch.stack([t, u], dim=-1)\<close>: equal shapes, the elements alternate.\<close>

definition stack_last :: "'a tensor \<Rightarrow> 'a tensor \<Rightarrow> error + 'a tensor" where
  "stack_last t u =
     (if shape t \<noteq> shape u then Inl RuntimeError
      else Inr (Tensor (shape t @ [2]) (concat (map2 (\<lambda>x y. [x, y]) (data t) (data u)))))"

text \<open>
  \<^verbatim>\<open>t.expand(-1, k, -1)\<close> on a tensor of three axes: the middle axis is kept when
  \<open>k\<close> is \<open>-1\<close> or its size, repeated when its size is 1, and refused otherwise.
\<close>

definition expand_mid :: "'a tensor \<Rightarrow> int \<Rightarrow> error + 'a tensor" where
  "expand_mid t k =
     (case shape t of
        [a, b, c] \<Rightarrow>
          if k = - 1 \<or> k = int b then Inr t
          else if b = 1 \<and> 0 \<le> k then
            Inr (Tensor [a, nat k, c]
                   (concat (map (\<lambda>i. concat (replicate (nat k) (take c (drop (i * c) (data t))))) [0..<a])))
          else Inl RuntimeError
      | _ \<Rightarrow> Inl RuntimeError)"

section \<open>The feature request and the pipeline object\<close>

text \<open>
  One entry of \<^verbatim>\<open>feat_list\<close>: the keyword arguments of \<^verbatim>\<open>select_feat\<close>. A key that
  is absent from the dictionary takes the default of the signature
  (\<^verbatim>\<open>channel=0, log=False, delta=0, cmvn=False\<close>).
\<close>

record feat_args =
  feat_type :: string
  channel :: int
  log :: bool
  delta :: int
  cmvn :: bool

text \<open>
  The library functions the source calls (torch, torchaudio) are not part of the
  repository; they are parameters of the model.
\<close>

record lib =
  torch_stft :: "int \<Rightarrow> int \<Rightarrow> int \<Rightarrow> ftensor \<Rightarrow> ftensor \<Rightarrow> error + ftensor"
  torchaudio_istft :: "int \<Rightarrow> int \<Rightarrow> int \<Rightarrow> ftensor \<Rightarrow> ftensor \<Rightarrow> error + ftensor"
  torchaudio_magphase :: "real \<Rightarrow> ftensor \<Rightarrow> error + (ftensor \<times> ftensor)"
  compute_deltas :: "ftensor \<Rightarrow> error + ftensor"
  hann_window :: "int \<Rightarrow> error + ftensor"
  randn :: "int list \<Rightarrow> error + ftensor"

text \<open>
  The attributes of an \<^verbatim>\<open>OnlinePreprocessor\<close>. \<^verbatim>\<open>_win_args\<close> is the three fields
  \<open>n_fft\<close>, \<open>hop_length\<close>, \<open>win_length\<close>. \<^verbatim>\<open>forward\<close> reads \<^verbatim>\<open>self._melscale\<close> and
  \<^verbatim>\<open>self._mfcc_trans\<close>, which the constructor never assigns: an attribute that is
  not set is \<open>None\<close> here.
\<close>

record preprocessor =
  n_fft :: int
  hop_length :: int
  win_length :: int
  window :: ftensor
  feat_list :: "feat_args list option"
  pseudo_wav :: ftensor
  melscale :: "(ftensor \<Rightarrow> error + ftensor) option"
  mfcc_trans :: "(ftensor \<Rightarrow> error + ftensor) option"

section \<open>The constructor\<close>




















section \<open>Feature selection\<close>

text \<open>
  The dictionary \<^verbatim>\<open>locals()\<close> of \<^verbatim>\<open>forward\<close> that \<^verbatim>\<open>select_feat\<close> indexes with
  \<^verbatim>\<open>feat_type\<close>: six tensors, and the names of the locals that are no tensors.
\<close>

record variables =
  v_wavs :: ftensor
  v_complx :: ftensor
  v_linear :: ftensor
  v_phase :: ftensor
  v_mel :: ftensor
  v_mfcc :: ftensor
  v_others :: "string list"

text \<open>
  \<^verbatim>\<open>variables[feat_type].select\<close>: \<open>KeyError\<close> for a name that is no local,
  \<open>AttributeError\<close> for a local that has no method \<^verbatim>\<open>select\<close>.
\<close>

definition lookup_var :: "variables \<Rightarrow> string \<Rightarrow> error + ftensor" where
  "lookup_var vars n =
     (if n = ''complx'' then Inr (v_complx vars)
      else if n = ''linear'' then Inr (v_linear vars)
      else if n = ''phase'' then Inr (v_phase vars)
      else if n = ''mel'' then Inr (v_mel vars)
      else if n = ''mfcc'' then Inr (v_mfcc vars)
      else if n = ''wavs'' then Inr (v_wavs vars)
      else if n \<in> set (v_others vars) then Inl (AttributeError ''select'')
      else Inl (KeyError n))"

definition eps :: real where
  "eps = 1 / 10 ^ 10"

text \<open>line 103: \<^verbatim>\<open>(raw_feat + 1e-10).log()\<close>\<close>

definition log_eps :: "ftensor \<Rightarrow> ftensor" where
  "log_eps t = map_tensor (\<lambda>x. flog (fadd x (Fin eps))) t"

text \<open>
  lines 106 and 107: \<^verbatim>\<open>for _ in range(int(delta)): feats.append(compute_deltas(feats[-1]))\<close>
\<close>

fun delta_loop :: "lib \<Rightarrow> nat \<Rightarrow> ftensor list \<Rightarrow> error + ftensor list" where
  "delta_loop L 0 feats = Inr feats"
| "delta_loop L (Suc n) feats =
     bindE (compute_deltas L (last feats)) (\<lambda>d. delta_loop L n (feats @ [d]))"

text \<open>
  line 111: \<^verbatim>\<open>(feats - feats.mean(dim=-1, keepdim=True)) / (feats.std(dim=-1, keepdim=True) + 1e-10)\<close>.
  The mean and the deviation have the shape of \<open>feats\<close> with last axis 1.
\<close>

definition cmvn_norm :: "ftensor \<Rightarrow> ftensor" where
  "cmvn_norm feats =
     bcast_last fdiv
       (bcast_last fsub feats (reduce_last fmean feats))
       (map_tensor (\<lambda>s. fadd s (Fin eps)) (reduce_last fstd feats))"

text \<open>\<^verbatim>\<open>select_feat\<close>, lines 99 to 112.\<close>

definition select_feat :: "lib \<Rightarrow> variables \<Rightarrow> feat_args \<Rightarrow> error + ftensor" where
  "select_feat L vars args =
     bindE (lookup_var vars (feat_type args)) (\<lambda>v.
     bindE (select3 v (channel args)) (\<lambda>raw_feat.
     let raw_feat = (if log args then log_eps raw_feat else raw_feat) in
     bindE (delta_loop L (nat (delta args)) [raw_feat]) (\<lambda>feats.
     bindE (cat2 feats) (\<lambda>feats.
     Inr (if cmvn args then cmvn_norm feats else feats)))))"

section \<open>The forward pass\<close>

text \<open>
  \<^verbatim>\<open>forward\<close> records which library transforms it has run, in order: a computation
  is the list of calls made and the result.
\<close>

datatype call = CallStft | CallMagphase | CallMelScale | CallMFCC

type_synonym 'a traced = "call list \<times> (error + 'a)"

definition pureT :: "error + 'a \<Rightarrow> 'a traced" where
  "pureT r = ([], r)"

definition callT :: "call \<Rightarrow> error + 'a \<Rightarrow> 'a traced" where
  "callT c r = ([c], r)"

definition bindT :: "'a traced \<Rightarrow> ('a \<Rightarrow> 'b traced) \<Rightarrow> 'b traced" where
  "bindT m f =
     (case snd m of
        Inl e \<Rightarrow> (fst m, Inl e)
      | Inr x \<Rightarrow> (fst m @ fst (f x), snd (f x)))"

text \<open>\<^verbatim>\<open>_check_list\<close>, lines 56 to 60.\<close>

definition check_list :: "preprocessor \<Rightarrow> feat_args list option \<Rightarrow> error + feat_args list" where
  "check_list self fl =
     (case (case fl of None \<Rightarrow> feat_list self | Some l \<Rightarrow> Some l) of
        None \<Rightarrow> Inl (AssertionError ''type(feat_list) is list'')
      | Some l \<Rightarrow> Inr l)"

text \<open>\<^verbatim>\<open>_transpose_list\<close>, lines 62 and 63.\<close>

definition transpose_list :: "'a tensor list \<Rightarrow> error + 'a tensor list" where
  "transpose_list feats = mapE transpose_last2 feats"

text \<open>
  Lines 83 to 87 of \<^verbatim>\<open>forward\<close>: the request list, the default waveform, and the
  assertion on the number of axes.
\<close>

definition forward_checks ::
  "preprocessor \<Rightarrow> ftensor option \<Rightarrow> feat_args list option \<Rightarrow> error + (feat_args list \<times> ftensor)" where
  "forward_checks self wavs fl0 =
     bindE (check_list self fl0) (\<lambda>fl.
     bindE (case wavs of
              Some w \<Rightarrow> Inr w
            | None \<Rightarrow>
                (case fl of
                   [] \<Rightarrow> Inl ValueError
                 | a # as \<Rightarrow>
                     expand_mid (pseudo_wav self) (foldl max (channel a) (map channel as) + 1)))
       (\<lambda>w.
     if 3 \<le> dim w then Inr (fl, w) else Inl (AssertionError ''wavs.dim() >= 3'')))"

text \<open>Lines 89 to 91: the analysis transform, row by row, and the leading axes restored.\<close>

definition analysis :: "lib \<Rightarrow> preprocessor \<Rightarrow> ftensor \<Rightarrow> ftensor traced" where
  "analysis L self wavs =
     (if shape wavs = [] then pureT (Inl IndexError)
      else
        bindT (pureT (reshape wavs [- 1, int (last (shape wavs))])) (\<lambda>flat.
        bindT (callT CallStft
                 (torch_stft L (n_fft self) (hop_length self) (win_length self) (window self) flat))
          (\<lambda>complx.
        pureT (reshape complx
                 (map int (butlast (shape wavs) @ drop (dim complx - 3) (shape complx)))))))"

text \<open>
  Line 96: \<^verbatim>\<open>complx.transpose(-1, -2).reshape(*mfcc.shape[:2], -1, mfcc.size(-1))\<close>
\<close>

definition flatten_complx :: "ftensor \<Rightarrow> ftensor \<Rightarrow> error + ftensor" where
  "flatten_complx complx mfcc =
     bindE (transpose_last2 complx) (\<lambda>c.
     if shape mfcc = [] then Inl IndexError
     else reshape c (map int (take 2 (shape mfcc)) @ [- 1, int (last (shape mfcc))]))"

text \<open>Lines 89 to 97 and 115: every representation is computed before any is selected.\<close>

definition features :: "lib \<Rightarrow> preprocessor \<Rightarrow> ftensor \<Rightarrow> string list \<Rightarrow> variables traced" where
  "features L self wavs others =
     bindT (analysis L self wavs) (\<lambda>complx.
     bindT (callT CallMagphase (torchaudio_magphase L 2 complx)) (\<lambda>(linear, phase).
     bindT (case melscale self of
              None \<Rightarrow> pureT (Inl (AttributeError ''_melscale''))
            | Some f \<Rightarrow> callT CallMelScale (f linear)) (\<lambda>mel.
     bindT (case mfcc_trans self of
              None \<Rightarrow> pureT (Inl (AttributeError ''_mfcc_trans''))
            | Some f \<Rightarrow> callT CallMFCC (f wavs)) (\<lambda>mfcc.
     bindT (pureT (flatten_complx complx mfcc)) (\<lambda>complx'.
     pureT (Inr \<lparr> v_wavs = wavs, v_complx = complx', v_linear = linear, v_phase = phase,
                  v_mel = mel, v_mfcc = mfcc, v_others = others \<rparr>))))))"

definition other_locals :: "ftensor option \<Rightarrow> string list" where
  "other_locals wavs =
     [''self'', ''feat_list'', ''shape'', ''select_feat'']
     @ (if wavs = None then [''max_channel_id''] else [])"

text \<open>\<^verbatim>\<open>forward\<close>, lines 80 to 117.\<close>

definition forward ::
  "lib \<Rightarrow> preprocessor \<Rightarrow> ftensor option \<Rightarrow> feat_args list option \<Rightarrow> ftensor list traced" where
  "forward L self wavs fl0 =
     (case forward_checks self wavs fl0 of
        Inl e \<Rightarrow> ([], Inl e)
      | Inr (fl, w) \<Rightarrow>
          bindT (features L self w (other_locals wavs)) (\<lambda>vars.
          pureT (bindE (mapE (select_feat L vars) fl) transpose_list)))"

section \<open>The synthesis entry point\<close>

text \<open>
  Line 126: \<^verbatim>\<open>linears.pow(1/linear_power).unsqueeze(-1) * torch.stack([phases.cos(), phases.sin()], dim=-1)\<close>,
  after both arguments went through \<^verbatim>\<open>_transpose_list\<close> (line 125).
\<close>

definition recompose :: "ftensor \<Rightarrow> ftensor \<Rightarrow> real \<Rightarrow> error + ftensor" where
  "recompose linears phases linear_power =
     bindE (transpose_last2 linears) (\<lambda>l.
     bindE (transpose_last2 phases) (\<lambda>p.
     if linear_power = 0 then Inl ZeroDivisionError
     else
       bindE (stack_last (map_tensor fcos p) (map_tensor fsin p)) (\<lambda>cs.
       bcast2 fmul (unsqueeze_last (map_tensor (\<lambda>x. fpow x (1 / linear_power)) l)) cs)))"

text \<open>Lines 127 to 130: an input whose last axis is not 2 is taken as interleaved.\<close>

definition to_paired :: "'a tensor \<Rightarrow> error + 'a tensor" where
  "to_paired c =
     (if shape c = [] then Inl IndexError
      else if last (shape c) \<noteq> 2 then
        bindE (reshape c (map int (butlast (shape c)) @ [- 1, 2])) transpose_23
      else Inr c)"

text \<open>\<^verbatim>\<open>istft\<close>, lines 119 to 134.\<close>

definition istft ::
  "lib \<Rightarrow> preprocessor \<Rightarrow> ftensor option \<Rightarrow> ftensor option \<Rightarrow> real \<Rightarrow> ftensor option
     \<Rightarrow> error + ftensor" where
  "istft L self linears phases linear_power complxs =
     bindE (case complxs of
              Some c \<Rightarrow> Inr c
            | None \<Rightarrow>
                (case linears of
                   None \<Rightarrow> Inl (AssertionError ''complxs is not None or (linears is not None and phases is not None)'')
                 | Some l \<Rightarrow>
                     (case phases of
                        None \<Rightarrow> Inl (AssertionError ''complxs is not None or (linears is not None and phases is not None)'')
                      | Some p \<Rightarrow> recompose l p linear_power))) (\<lambda>c.
     bindE (to_paired c) (\<lambda>c.
     torchaudio_istft L (n_fft self) (hop_length self) (win_length self) (window self) c))"

section \<open>The framing of the analysis transform\<close>

text \<open>
  Modelled from the spec: \<^verbatim>\<open>torch.stft\<close> is a library function and is not under
  \<^verbatim>\<open>src/\<close>. Section 4.1: the signal is reflect-padded by \<open>n_fft/2\<close> samples on both
  ends and cut into frames of \<open>n_fft\<close> samples, one every \<open>hop_len\<close> samples; the
  one-sided spectrum of a frame has \<open>n_fft/2 + 1\<close> bins; the last axis holds the real
  and the imaginary part.
\<close>

function frame_starts :: "nat \<Rightarrow> nat \<Rightarrow> nat \<Rightarrow> nat \<Rightarrow> nat list" where
  "frame_starts padded n hop s =
     (if hop = 0 \<or> padded < s + n then [] else s # frame_starts padded n hop (s + hop))"
  by pat_completeness auto
termination
  by (relation "measure (\<lambda>(padded, n, hop, s). Suc padded - s)") auto

declare frame_starts.simps [simp del]

definition stft_frames :: "nat \<Rightarrow> nat \<Rightarrow> nat \<Rightarrow> nat" where
  "stft_frames T n hop = length (frame_starts (n div 2 + T + n div 2) n hop 0)"

definition stft_shape :: "nat \<Rightarrow> nat \<Rightarrow> nat list \<Rightarrow> nat list" where
  "stft_shape n hop s = butlast s @ [n div 2 + 1, stft_frames (last s) n hop, 2]"

text \<open>
  Modelled from the spec: what section 4.1 says of the analysis transform, as a
  condition on the library function behind \<^verbatim>\<open>self._stft\<close>. On a batch of rows it
  returns the spectrogram of the shape given by \<open>stft_shape\<close>.
\<close>

definition stft_conforms :: "lib \<Rightarrow> preprocessor \<Rightarrow> bool" where
  "stft_conforms L self \<longleftrightarrow>
     (\<forall>x. wf x \<and> dim x = 2 \<longrightarrow>
        (\<exists>y. torch_stft L (n_fft self) (hop_length self) (win_length self) (window self) x = Inr y
             \<and> wf y
             \<and> shape y = stft_shape (nat (n_fft self)) (nat (hop_length self)) (shape x)))"

text \<open>
  Modelled from the spec: \<^verbatim>\<open>compute_deltas\<close> is a function of torchaudio and is not
  under \<^verbatim>\<open>src/\<close>. Section 4.6: the delta operator does not shrink the time axis; it
  returns a tensor of the shape of its argument.
\<close>

definition deltas_keep_shape :: "lib \<Rightarrow> bool" where
  "deltas_keep_shape L \<longleftrightarrow>
     (\<forall>x. wf x \<and> 2 \<le> dim x \<longrightarrow>
        (\<exists>y. compute_deltas L x = Inr y \<and> wf y \<and> shape y = shape x))"

section \<open>A library instance for concrete runs\<close>

text \<open>
  Modelled from the spec: the delta operator of section 4.6, the regression slope
  over two frames on each side with the edge frames replicated, along the last axis.
\<close>

definition delta_row :: "fval list \<Rightarrow> fval list" where
  "delta_row xs =
     map (\<lambda>t. fdiv (fadd (fsub (xs ! min (t + 1) (length xs - 1)) (xs ! (t - 1)))
                         (fmul (Fin 2) (fsub (xs ! min (t + 2) (length xs - 1)) (xs ! (t - 2)))))
                   (Fin 10))
         [0..<length xs]"

definition delta_rows :: "ftensor \<Rightarrow> ftensor" where
  "delta_rows t =
     Tensor (shape t)
       (concat (map (\<lambda>r. delta_row (take (last (shape t)) (drop (r * last (shape t)) (data t))))
                    [0..<prod_list (butlast (shape t))]))"

text \<open>
  The transforms of this instance return zero tensors of the shapes the library
  functions have; the inverse transform returns its input flattened.
\<close>

definition example_lib :: lib where
  "example_lib =
     \<lparr> torch_stft = (\<lambda>n hop win w x. Inr (zeros (stft_shape (nat n) (nat hop) (shape x)))),
       torchaudio_istft = (\<lambda>n hop win w c. Inr (Tensor [length (data c)] (data c))),
       torchaudio_magphase = (\<lambda>p c. Inr (zeros (butlast (shape c)), zeros (butlast (shape c)))),
       compute_deltas = (\<lambda>t. Inr (delta_rows t)),
       hann_window = (\<lambda>n. Inr (zeros [nat n])),
       randn = (\<lambda>s. Inr (zeros (map nat s))) \<rparr>"

definition example_self :: preprocessor where
  "example_self =
     \<lparr> n_fft = 4, hop_length = 2, win_length = 4, window = zeros [4],
       feat_list = None, pseudo_wav = zeros [2, 2, 8],
       melscale = Some (\<lambda>t. Inr (zeros (take (dim t - 2) (shape t) @ [3, last (shape t)]))),
       mfcc_trans = Some (\<lambda>t. Inr (zeros (butlast (shape t) @ [2, stft_frames (last (shape t)) 4 2]))) \<rparr>"

text \<open>The pipeline with the default window arguments of the constructor's signature.\<close>

definition default_self :: preprocessor where
  "default_self = example_self \<lparr> n_fft := 512, hop_length := 256, win_length := 512 \<rparr>"

text \<open>
  Representations of one batch item with one channel, as \<^verbatim>\<open>select_feat\<close> may receive
  them: a zero power spectrum, phases between \<open>-\<pi>\<close> and \<open>\<pi>\<close>, and two cepstral
  coefficients over three frames.
\<close>

definition example_vars :: variables where
  "example_vars =
     \<lparr> v_wavs = zeros [1, 1, 2], v_complx = zeros [1, 1, 4, 2],
       v_linear = zeros [1, 1, 2, 2],
       v_phase = Tensor [1, 1, 2, 2] [Fin 0, Fin (- 1), Fin 1, Fin (- 2)],
       v_mel = zeros [1, 1, 3, 2],
       v_mfcc = Tensor [1, 1, 2, 3] [Fin (- 1), Fin 0, Fin 1, Fin 2, Fin 4, Fin 6],
       v_others = other_locals (Some (zeros [1, 1, 2])) \<rparr>"

text \<open>
  The elements of the concatenation, along the second axis from the end, of tensors
  that have \<open>B\<close> leading indices and blocks of \<open>m\<close> elements each.
\<close>

definition cat_data :: "nat \<Rightarrow> nat \<Rightarrow> 'a tensor list \<Rightarrow> 'a list" where
  "cat_data B m ts = concat (map (\<lambda>b. concat (map (\<lambda>t. take m (drop (b * m) (data t))) ts)) [0..<B])"



text \<open>
  The flattened interleaved form of a paired spectrogram, after section 4.2: of shape
  \<open>(..., time_frames, freq_bins*2)\<close>, with the real and the imaginary part of bin \<open>f\<close> of
  frame \<open>t\<close> at positions \<open>2*f\<close> and \<open>2*f + 1\<close> of row \<open>t\<close>. Element \<open>q\<close> of the result, at
  index \<open>(h, t, 2*f + c)\<close>, is element \<open>(h, f, t, c)\<close> of the paired form.
\<close>

definition interleaved :: "'a tensor \<Rightarrow> 'a tensor" where
  "interleaved p =
     (let s = shape p; r = length s; F = s ! (r - 3); T = s ! (r - 2) in
      Tensor (take (r - 3) s @ [T, 2 * F])
        (map (\<lambda>q. let c = q mod 2; f = (q div 2) mod F; t = (q div (2 * F)) mod T;
                      h = q div (2 * F * T)
                  in data p ! (((h * F + f) * T + t) * 2 + c))
             [0..<length (data p)]))"

text \<open>
  The four steps of section 4.5 of the spec, each on its own, and their composition
  in the order the spec gives: channel selection, logarithm, delta, normalisation.
\<close>

definition step_channel :: "variables \<Rightarrow> feat_args \<Rightarrow> error + ftensor" where
  "step_channel vars a = bindE (lookup_var vars (feat_type a)) (\<lambda>v. select3 v (channel a))"

definition step_log :: "feat_args \<Rightarrow> ftensor \<Rightarrow> ftensor" where
  "step_log a x = (if log a then log_eps x else x)"

definition step_delta :: "lib \<Rightarrow> feat_args \<Rightarrow> ftensor \<Rightarrow> error + ftensor" where
  "step_delta L a x = bindE (delta_loop L (nat (delta a)) [x]) cat2"

definition step_cmvn :: "feat_args \<Rightarrow> ftensor \<Rightarrow> ftensor" where
  "step_cmvn a x = (if cmvn a then cmvn_norm x else x)"

definition select_steps :: "lib \<Rightarrow> variables \<Rightarrow> feat_args \<Rightarrow> error + ftensor" where
  "select_steps L vars a =
     bindE (step_channel vars a) (\<lambda>x.
     bindE (step_delta L a (step_log a x)) (\<lambda>y.
     Inr (step_cmvn a y)))"




section \<open>Properties\<close>


lemma bindE_Inr: "bindE (Inr x) f = f x"
  by (simp add: bindE_def)
















subsection \<open>Traced computations\<close>

lemma snd_pureT: "snd (pureT r) = r" and fst_pureT: "fst (pureT r) = []"
  by (simp_all add: pureT_def)

lemma snd_callT: "snd (callT c r) = r" and fst_callT: "fst (callT c r) = [c]"
  by (simp_all add: callT_def)

lemma snd_bindT: "snd (bindT m f) = bindE (snd m) (\<lambda>x. snd (f x))"
  by (simp add: bindT_def bindE_def split: sum.splits)

lemma fst_bindT_Inr: "snd m = Inr x \<Longrightarrow> fst (bindT m f) = fst m @ fst (f x)"
  by (simp add: bindT_def)

lemma fst_bindT_Inl: "snd m = Inl e \<Longrightarrow> fst (bindT m f) = fst m"
  by (simp add: bindT_def)

lemma bindT_pure_Inl: "bindT (pureT (Inl e)) f = ([], Inl e)"
  by (simp add: bindT_def pureT_def)

lemma bindT_pure_Inr: "bindT (pureT (Inr x)) f = f x"
  by (simp add: bindT_def pureT_def)

lemma fst_bindT_callT: "fst (bindT (callT c r) f) \<noteq> []"
  by (simp add: bindT_def callT_def split: sum.splits)

lemma reshape_error: "reshape t tgt = Inl e \<Longrightarrow> e = RuntimeError"
  by (auto simp: reshape_def bindE_def infer_shape_def Let_def split: sum.splits if_splits)

text \<open>
  While no library transform has been called, the analysis stage can only have
  failed in a reshape or on a tensor without axes.
\<close>

lemma analysis_no_call:
  assumes "fst (analysis L self w) = []"
  shows "snd (analysis L self w) = Inl RuntimeError \<or> snd (analysis L self w) = Inl IndexError"
proof (cases "shape w = []")
  case True
  then show ?thesis by (simp add: analysis_def snd_pureT)
next
  case False
  show ?thesis
  proof (cases "reshape w [- 1, int (last (shape w))]")
    case (Inl e)
    then show ?thesis
      using False reshape_error[OF Inl] by (simp add: analysis_def bindT_pure_Inl)
  next
    case (Inr flat)
    then have "fst (analysis L self w) \<noteq> []"
      using False by (simp add: analysis_def bindT_pure_Inr fst_bindT_callT)
    with assms show ?thesis by simp
  qed
qed

lemma features_no_call:
  assumes "fst (features L self w others) = []"
  shows "snd (features L self w others) = Inl RuntimeError
         \<or> snd (features L self w others) = Inl IndexError"
proof (cases "snd (analysis L self w)")
  case (Inl e)
  then have "features L self w others = (fst (analysis L self w), Inl e)"
    by (simp add: features_def bindT_def)
  with assms Inl analysis_no_call[of L self w] show ?thesis by auto
next
  case (Inr complx)
  then have "fst (features L self w others) \<noteq> []"
    unfolding features_def by (simp add: fst_bindT_Inr fst_bindT_callT)
  with assms show ?thesis by simp
qed

subsection \<open>The assertion on the number of axes\<close>

text \<open>
  C7. The spec's \<open>ShapeError\<close> is the \<open>AssertionError\<close> of line 87. For a waveform
  with fewer than three axes \<^verbatim>\<open>forward\<close> fails with an assertion error before any
  transform is called and returns no feature; when the request list is a list, the
  failing assertion is the one of line 87. For a waveform with at least three axes
  \<^verbatim>\<open>forward\<close> never fails at line 87, and with a request list that is a list the checks
  of lines 83 to 87 pass and \<^verbatim>\<open>forward\<close> goes on to the transforms.
\<close>

theorem forward_dim_check:
  "(dim w < 3 \<longrightarrow>
      (\<exists>s. forward L self (Some w) fl0 = ([], Inl (AssertionError s))) \<and>
      (check_list self fl0 = Inr fl \<longrightarrow>
         forward L self (Some w) fl0 = ([], Inl (AssertionError ''wavs.dim() >= 3''))))
   \<and> (3 \<le> dim w \<longrightarrow>
      forward L self (Some w) fl0 \<noteq> ([], Inl (AssertionError ''wavs.dim() >= 3'')) \<and>
      (check_list self fl0 = Inr fl \<longrightarrow>
         forward_checks self (Some w) fl0 = Inr (fl, w) \<and>
         forward L self (Some w) fl0 =
           bindT (features L self w (other_locals (Some w)))
             (\<lambda>vars. pureT (bindE (mapE (select_feat L vars) fl) transpose_list))))"
proof -
  have A: "\<exists>s. forward L self (Some w) fl0 = ([], Inl (AssertionError s))" if d: "dim w < 3"
    using d by (cases "check_list self fl0")
      (auto simp: forward_def forward_checks_def bindE_def check_list_def split: option.splits)
  have B: "forward L self (Some w) fl0 = ([], Inl (AssertionError ''wavs.dim() >= 3''))"
    if "dim w < 3" "check_list self fl0 = Inr fl"
    using that by (simp add: forward_def forward_checks_def bindE_def)
  have D: "forward_checks self (Some w) fl0 = Inr (fl, w) \<and>
         forward L self (Some w) fl0 =
           bindT (features L self w (other_locals (Some w)))
             (\<lambda>vars. pureT (bindE (mapE (select_feat L vars) fl) transpose_list))"
    if "3 \<le> dim w" "check_list self fl0 = Inr fl" for fl
    using that by (simp add: forward_def forward_checks_def bindE_def)
  have C: "forward L self (Some w) fl0 \<noteq> ([], Inl (AssertionError ''wavs.dim() >= 3''))"
    if d: "3 \<le> dim w"
  proof (cases "check_list self fl0")
    case (Inl e)
    then have "e = AssertionError ''type(feat_list) is list''"
      by (auto simp: check_list_def split: option.splits)
    with Inl show ?thesis
      by (simp add: forward_def forward_checks_def bindE_def)
  next
    case (Inr l)
    let ?m = "features L self w (other_locals (Some w))"
    let ?f = "\<lambda>vars. pureT (bindE (mapE (select_feat L vars) l) transpose_list)"
    have fw: "forward L self (Some w) fl0 = bindT ?m ?f"
      using D[OF d Inr] by simp
    show ?thesis
    proof
      assume "forward L self (Some w) fl0 = ([], Inl (AssertionError ''wavs.dim() >= 3''))"
      then have b: "bindT ?m ?f = ([], Inl (AssertionError ''wavs.dim() >= 3''))"
        using fw by simp
      show False
      proof (cases "snd ?m")
        case (Inl e)
        then have "bindT ?m ?f = (fst ?m, Inl e)" by (simp add: bindT_def)
        with b have "fst ?m = []" "snd ?m = Inl (AssertionError ''wavs.dim() >= 3'')"
          using Inl by simp_all
        then show False using features_no_call[of L self w "other_locals (Some w)"] by simp
      next
        case (Inr v)
        then have "fst (bindT ?m ?f) = fst ?m @ []" by (simp add: bindT_def fst_pureT)
        with b have "fst ?m = []" by simp
        then show False using features_no_call[of L self w "other_locals (Some w)"] Inr by simp
      qed
    qed
  qed
  show ?thesis using A B C D by blast
qed

theorem forward_dim_check_witness:
  "forward example_lib example_self (Some (zeros [2, 8])) (Some [])
     = ([], Inl (AssertionError ''wavs.dim() >= 3''))
   \<and> forward_checks example_self (Some (zeros [1, 2, 8])) (Some []) = Inr ([], zeros [1, 2, 8])"
  using forward_dim_check[of "zeros [2, 8]" example_lib example_self "Some []" "[]"]
    forward_dim_check[of "zeros [1, 2, 8]" example_lib example_self "Some []" "[]"]
  by (simp add: dim_def zeros_def check_list_def)

subsection \<open>The shape of the spectrogram\<close>

lemma length_frame_starts:
  "0 < hop \<Longrightarrow>
   length (frame_starts padded n hop s) = (if s + n \<le> padded then (padded - n - s) div hop + 1 else 0)"
proof (induction padded n hop s rule: frame_starts.induct)
  case (1 padded n hop s)
  show ?case
  proof (cases "padded < s + n")
    case True
    then show ?thesis using "1.prems" by (subst frame_starts.simps) simp
  next
    case False
    then have fits: "s + n \<le> padded" by simp
    have ih: "length (frame_starts padded n hop (s + hop)) =
          (if s + hop + n \<le> padded then (padded - n - (s + hop)) div hop + 1 else 0)"
      using "1.IH" "1.prems" False by simp
    show ?thesis
    proof (cases "s + hop + n \<le> padded")
      case True
      then obtain d where d: "padded = (s + hop + n) + d"
        using le_Suc_ex by blast
      have "(hop + d) div hop = d div hop + 1"
        using "1.prems" by simp
      moreover have "padded - n - s = hop + d" "padded - n - (s + hop) = d"
        using d by simp_all
      ultimately have "(padded - n - s) div hop = (padded - n - (s + hop)) div hop + 1"
        by simp
      moreover have "frame_starts padded n hop s = s # frame_starts padded n hop (s + hop)"
        using fits "1.prems" by (subst frame_starts.simps) simp
      ultimately show ?thesis
        using fits True ih by simp
    next
      case False
      then have "padded - n - s < hop" using fits by simp
      then have "(padded - n - s) div hop = 0" by simp
      moreover have "frame_starts padded n hop s = s # frame_starts padded n hop (s + hop)"
        using fits "1.prems" by (subst frame_starts.simps) simp
      ultimately show ?thesis
        using fits False ih by simp
    qed
  qed
qed

lemma stft_frames_centered:
  assumes "0 < hop" "even n"
  shows "stft_frames T n hop = T div hop + 1"
proof -
  have "n div 2 + T + n div 2 = T + n" using assms(2) by auto
  then have "length (frame_starts (n div 2 + T + n div 2) n hop 0) = (T + n - n - 0) div hop + 1"
    using assms(1) by (simp only: length_frame_starts) simp
  then show ?thesis
    by (simp add: stft_frames_def)
qed

lemma infer_shape_exact:
  "infer_shape n (map int s) = (if prod_list s = n then Inr s else Inl RuntimeError)"
proof -
  have f: "filter (\<lambda>d. d \<noteq> - 1) (map int s) = map int s"
    by (induction s) auto
  have g: "filter (\<lambda>d. d = - 1) (map int s) = []"
    by (induction s) auto
  have m: "map nat (map int s) = s" by (induction s) auto
  have "\<not> (\<exists>d \<in> set (map int s). d < - 1)" by auto
  moreover have "- 1 \<notin> set (map int s)" by auto
  ultimately show ?thesis
    unfolding infer_shape_def Let_def f g m by (simp add: m del: set_map)
qed

lemma infer_shape_minus1:
  "infer_shape n (map int pre @ [- 1, int k]) =
     (if prod_list pre * k = 0 \<or> n mod (prod_list pre * k) \<noteq> 0 then Inl RuntimeError
      else Inr (pre @ [n div (prod_list pre * k), k]))"
proof -
  have f: "filter (\<lambda>d. d \<noteq> - 1) (map int pre @ [- 1, int k]) = map int pre @ [int k]"
    by (induction pre) auto
  have g: "filter (\<lambda>d. d = - 1) (map int pre @ [- 1, int k]) = [- 1]"
    by (induction pre) auto
  have m: "map nat (map int pre) = pre" by (induction pre) auto
  have m': "map (nat \<circ> int) pre = pre" by (induction pre) auto
  have a: "\<not> (\<exists>d \<in> set (map int pre @ [- 1, int k]). d < - 1)" by auto
  have b: "- 1 \<in> set (map int pre @ [- 1, int k])" by simp
  have c: "map (\<lambda>d. if d = - 1 then X else nat d) (map int pre) = pre" for X :: nat
    by (induction pre) auto
  show ?thesis
    unfolding infer_shape_def Let_def f g
    using a b c by (simp add: m m' del: set_map set_append)
qed

lemma reshape_exact:
  "prod_list s = length (data t) \<Longrightarrow> reshape t (map int s) = Inr (Tensor s (data t))"
  by (simp add: reshape_def infer_shape_exact bindE_def)

text \<open>
  C3. With \<open>n_fft = (n_freq - 1) * 2\<close> (line 42) and a transform that frames as
  section 4.1 describes, the spectrogram that lines 89 to 91 produce for a non-empty
  waveform of shape \<open>bs @ [T]\<close> has shape \<open>bs @ [n_fft div 2 + 1, T div hop_len + 1, 2]\<close>,
  and \<open>n_fft div 2 + 1 = n_freq\<close>. For shape \<open>(2, 2, 16000)\<close>, \<open>n_fft = 512\<close> and
  \<open>hop_len = 256\<close> that is 257 bins and 63 frames.
\<close>

theorem analysis_shape:
  assumes conf: "stft_conforms L self"
    and nfft: "n_fft self = (n_freq - 1) * 2" and nfreq: "1 \<le> n_freq"
    and hop: "0 < hop_length self"
    and wfw: "wf wavs" and sh: "shape wavs = bs @ [T]"
    and nonempty: "0 < prod_list (shape wavs)"
  shows "\<exists>complx. snd (analysis L self wavs) = Inr complx \<and> wf complx
           \<and> shape complx = bs @ [nat (n_fft self) div 2 + 1, T div nat (hop_length self) + 1, 2]
           \<and> nat (n_fft self) div 2 + 1 = nat n_freq"
proof -
  let ?B = "prod_list bs"
  let ?n = "nat (n_fft self)" and ?h = "nat (hop_length self)"
  have T0: "0 < T" and B0: "0 < ?B" using nonempty sh by auto
  have len: "length (data wavs) = ?B * T" using wfw sh by (simp add: wf_def)
  have "infer_shape (length (data wavs)) (map int [] @ [- 1, int T]) = Inr ([] @ [?B, T])"
    unfolding infer_shape_minus1 using T0 len by simp
  then have r1: "reshape wavs [- 1, int (last (shape wavs))] = Inr (Tensor [?B, T] (data wavs))"
    using sh by (simp add: reshape_def bindE_def)
  let ?flat = "Tensor [?B, T] (data wavs)"
  have "wf ?flat \<and> dim ?flat = 2" using len by (simp add: wf_def dim_def)
  then have "\<exists>y. torch_stft L (n_fft self) (hop_length self) (win_length self) (window self) ?flat = Inr y
      \<and> wf y \<and> shape y = stft_shape ?n ?h (shape ?flat)"
    using conf[unfolded stft_conforms_def, rule_format, of ?flat] by simp
  then obtain y where y: "torch_stft L (n_fft self) (hop_length self) (win_length self) (window self) ?flat = Inr y"
      "wf y" "shape y = stft_shape ?n ?h (shape ?flat)"
    by auto
  have nn: "?n = 2 * nat (n_freq - 1)" using nfft nfreq by (simp add: nat_mult_distrib)
  have ev: "even ?n" unfolding nn by simp
  have h0: "0 < ?h" using hop by simp
  have shy: "shape y = [?B, ?n div 2 + 1, T div ?h + 1, 2]"
    using y(3) by (simp add: stft_shape_def stft_frames_centered[OF h0 ev])
  have dy: "drop (dim y - 3) (shape y) = [?n div 2 + 1, T div ?h + 1, 2]"
    using shy by (simp add: dim_def)
  let ?s = "bs @ [?n div 2 + 1, T div ?h + 1, 2]"
  have "prod_list ?s = length (data y)" using y(2) shy by (simp add: wf_def)
  then have r2: "reshape y (map int ?s) = Inr (Tensor ?s (data y))"
    by (rule reshape_exact)
  have bl: "butlast (shape wavs) = bs" using sh by simp
  have ne: "shape wavs \<noteq> []" using sh by simp
  have "snd (analysis L self wavs) = Inr (Tensor ?s (data y))"
    unfolding analysis_def using ne r1 y(1) r2 dy bl
    by (simp add: snd_bindT snd_pureT snd_callT bindE_def)
  moreover have "wf (Tensor ?s (data y))" using y(2) shy by (simp add: wf_def)
  moreover have "?n div 2 + 1 = nat n_freq" unfolding nn using nfreq by simp
  ultimately show ?thesis by auto
qed

lemma wf_zeros: "wf (zeros s)"
  by (simp add: wf_def zeros_def)

lemma shape_zeros: "shape (zeros s) = s"
  by (simp add: zeros_def)



theorem analysis_shape_witness:
  "\<exists>complx. snd (analysis example_lib default_self (zeros [2, 2, 16000])) = Inr complx
      \<and> wf complx \<and> shape complx = [2, 2, 257, 63, 2]"
proof -
  have c: "stft_conforms example_lib default_self"
    by (simp add: stft_conforms_def example_lib_def wf_zeros shape_zeros)
  have n: "n_fft default_self = (257 - 1) * 2" and h: "0 < hop_length default_self"
    and hv: "nat (hop_length default_self) = 256" and nv: "nat (n_fft default_self) = 512"
    by (simp_all add: default_self_def)
  have s: "shape (zeros [2, 2, 16000]) = [2, 2] @ [16000]" by (simp add: shape_zeros)
  have p: "0 < prod_list (shape (zeros [2, 2, 16000]))" by (simp add: shape_zeros)
  show ?thesis
    using analysis_shape[OF c n _ h wf_zeros s p] by (simp add: hv nv)
qed

subsection \<open>Failures of the selection\<close>

lemma bindT_Inr:
  assumes "snd (bindT m f) = Inr y"
  obtains x where "snd m = Inr x" "snd (f x) = Inr y" "fst (bindT m f) = fst m @ fst (f x)"
  using assms by (cases "snd m") (auto simp: bindT_def)

lemma analysis_trace:
  assumes "snd (analysis L self w) = Inr c"
  shows "fst (analysis L self w) = [CallStft]"
proof -
  have ne: "shape w \<noteq> []" using assms by (auto simp: analysis_def snd_pureT)
  let ?st = "\<lambda>flat. callT CallStft
                 (torch_stft L (n_fft self) (hop_length self) (win_length self) (window self) flat)"
  let ?g = "\<lambda>complx. pureT (reshape complx
                 (map int (butlast (shape w) @ drop (dim complx - 3) (shape complx))))"
  have a: "analysis L self w =
      bindT (pureT (reshape w [- 1, int (last (shape w))])) (\<lambda>flat. bindT (?st flat) ?g)"
    using ne by (simp add: analysis_def)
  from assms[unfolded a] obtain flat where
    f1: "snd (pureT (reshape w [- 1, int (last (shape w))])) = Inr flat"
    and f2: "snd (bindT (?st flat) ?g) = Inr c"
    and f3: "fst (bindT (pureT (reshape w [- 1, int (last (shape w))])) (\<lambda>flat. bindT (?st flat) ?g))
             = fst (pureT (reshape w [- 1, int (last (shape w))])) @ fst (bindT (?st flat) ?g)"
    by (rule bindT_Inr)
  from f2 obtain y where g1: "snd (?st flat) = Inr y"
    and g3: "fst (bindT (?st flat) ?g) = fst (?st flat) @ fst (?g y)"
    by (rule bindT_Inr)
  show ?thesis
    unfolding a f3 g3 by (simp add: fst_pureT fst_callT)
qed

lemma features_trace:
  assumes "snd (features L self w others) = Inr vars"
  shows "fst (features L self w others) = [CallStft, CallMagphase, CallMelScale, CallMFCC]"
proof -
  let ?mel = "\<lambda>linear. case melscale self of
              None \<Rightarrow> pureT (Inl (AttributeError ''_melscale''))
            | Some f \<Rightarrow> callT CallMelScale (f linear)"
  let ?mfcc = "case mfcc_trans self of
              None \<Rightarrow> pureT (Inl (AttributeError ''_mfcc_trans''))
            | Some f \<Rightarrow> callT CallMFCC (f w)"
  let ?k4 = "\<lambda>complx linear phase mel mfcc.
     bindT (pureT (flatten_complx complx mfcc)) (\<lambda>complx'.
     pureT (Inr \<lparr> v_wavs = w, v_complx = complx', v_linear = linear, v_phase = phase,
                  v_mel = mel, v_mfcc = mfcc, v_others = others \<rparr>))"
  let ?k3 = "\<lambda>complx linear phase mel. bindT ?mfcc (?k4 complx linear phase mel)"
  let ?k2 = "\<lambda>complx (lp :: ftensor \<times> ftensor). bindT (?mel (fst lp)) (?k3 complx (fst lp) (snd lp))"
  let ?k1 = "\<lambda>complx. bindT (callT CallMagphase (torchaudio_magphase L 2 complx)) (?k2 complx)"
  have fe: "features L self w others = bindT (analysis L self w) ?k1"
    by (simp only: features_def case_prod_unfold)
  from assms[unfolded fe] obtain complx where
    a1: "snd (analysis L self w) = Inr complx" and a2: "snd (?k1 complx) = Inr vars"
    and a3: "fst (bindT (analysis L self w) ?k1) = fst (analysis L self w) @ fst (?k1 complx)"
    by (rule bindT_Inr)
  from a2 obtain lp where
    b2: "snd (?k2 complx lp) = Inr vars"
    and b3: "fst (?k1 complx) = fst (callT CallMagphase (torchaudio_magphase L 2 complx)) @ fst (?k2 complx lp)"
    by (rule bindT_Inr)
  from b2 obtain mel where
    c1: "snd (?mel (fst lp)) = Inr mel" and c2: "snd (?k3 complx (fst lp) (snd lp) mel) = Inr vars"
    and c3: "fst (?k2 complx lp) = fst (?mel (fst lp)) @ fst (?k3 complx (fst lp) (snd lp) mel)"
    by (rule bindT_Inr)
  from c2 obtain mfcc where
    d1: "snd ?mfcc = Inr mfcc" and d2: "snd (?k4 complx (fst lp) (snd lp) mel mfcc) = Inr vars"
    and d3: "fst (?k3 complx (fst lp) (snd lp) mel) = fst ?mfcc @ fst (?k4 complx (fst lp) (snd lp) mel mfcc)"
    by (rule bindT_Inr)
  from d2 obtain c' where
    e3: "fst (?k4 complx (fst lp) (snd lp) mel mfcc) = fst (pureT (flatten_complx complx mfcc)) @
          fst (pureT (Inr \<lparr> v_wavs = w, v_complx = c', v_linear = fst lp, v_phase = snd lp,
                  v_mel = mel, v_mfcc = mfcc, v_others = others \<rparr>) :: variables traced)"
    by (rule bindT_Inr)
  have m: "fst (?mel (fst lp)) = [CallMelScale]"
    using c1 by (cases "melscale self") (simp_all add: snd_pureT fst_callT)
  have f: "fst ?mfcc = [CallMFCC]"
    using d1 by (cases "mfcc_trans self") (simp_all add: snd_pureT fst_callT)
  show ?thesis
    unfolding fe a3 b3 c3 d3 e3 analysis_trace[OF a1] m f
    by (simp add: fst_pureT fst_callT)
qed

lemma mapE_fails:
  assumes "\<forall>b \<in> set pre. \<exists>y. f b = Inr y" and "f a = Inl e"
  shows "mapE f (pre @ a # post) = Inl e"
  using assms by (induction pre) (auto simp: bindE_def)

lemma select3_out_of_range:
  assumes "3 \<le> dim v" and "c < - int (shape v ! (dim v - 3)) \<or> int (shape v ! (dim v - 3)) \<le> c"
  shows "select3 v c = Inl IndexError"
  using assms by (auto simp: select3_def Let_def norm_index_def bindE_def dim_def)

text \<open>
  C8 fails as stated: the source has no request validation; the channel index is
  first used by \<^verbatim>\<open>select\<close> in \<^verbatim>\<open>select_feat\<close> (line 100), after every transform of lines
  89 to 97 has run. The spec's \<open>ChannelRangeError\<close> is the \<open>IndexError\<close> of torch.

  C8, amended. When the checks of lines 83 to 87 pass and the transforms succeed, a
  request whose channel index lies outside \<open>[-C, C)\<close>, for \<open>C\<close> the number of channels
  of the representation it names, makes \<^verbatim>\<open>select_feat\<close> raise \<open>IndexError\<close>; if the
  requests before it succeed, \<^verbatim>\<open>forward\<close> raises \<open>IndexError\<close> and returns no feature,
  after the four transforms have been called.
\<close>

theorem channel_out_of_range:
  assumes chk: "forward_checks self wavs fl0 = Inr (fl, w)"
    and feats: "snd (features L self w (other_locals wavs)) = Inr vars"
    and fl: "fl = pre @ a # post"
    and pre: "\<forall>b \<in> set pre. \<exists>f. select_feat L vars b = Inr f"
    and v: "lookup_var vars (feat_type a) = Inr v" and d: "3 \<le> dim v"
    and ch: "channel a < - int (shape v ! (dim v - 3)) \<or> int (shape v ! (dim v - 3)) \<le> channel a"
  shows "select_feat L vars a = Inl IndexError
       \<and> forward L self wavs fl0 = ([CallStft, CallMagphase, CallMelScale, CallMFCC], Inl IndexError)"
proof -
  have s: "select_feat L vars a = Inl IndexError"
    using v select3_out_of_range[OF d ch] by (simp add: select_feat_def bindE_def)
  have m: "mapE (select_feat L vars) fl = Inl IndexError"
    unfolding fl using pre s by (rule mapE_fails)
  have "forward L self wavs fl0 =
      bindT (features L self w (other_locals wavs))
        (\<lambda>vars. pureT (bindE (mapE (select_feat L vars) fl) transpose_list))"
    using chk by (simp add: forward_def)
  then have "forward L self wavs fl0 =
      (fst (features L self w (other_locals wavs)) @ [], Inl IndexError)"
    using feats m by (simp add: bindT_def pureT_def bindE_def)
  then show ?thesis
    using s features_trace[OF feats] by simp
qed


subsection \<open>A concrete run\<close>

lemma length_swap_axes: "length (swap_axes a b c xs) = length xs"
  by (simp add: swap_axes_def)

lemma bindT_Pair_Inr: "bindT (tr, Inr x) f = (tr @ fst (f x), snd (f x))"
  by (simp add: bindT_def)

lemma bindT_Pair_Inl: "bindT (tr, Inl e) f = (tr, Inl e)"
  by (simp add: bindT_def)

lemma dim_zeros: "dim (zeros s) = length s"
  by (simp add: zeros_def dim_def)

lemma data_zeros: "data (zeros s) = replicate (prod_list s) (Fin 0)"
  by (simp add: zeros_def)

lemma reshape_zeros:
  "prod_list s' = prod_list s \<Longrightarrow> reshape (zeros s) (map int s') = Inr (zeros s')"
  using reshape_exact[of s' "zeros s"] by (simp add: zeros_def)

lemma example_frames: "stft_frames 8 4 2 = 5"
  by (simp add: stft_frames_centered)

lemma example_analysis:
  "analysis example_lib example_self (zeros [2, 2, 8]) = ([CallStft], Inr (zeros [2, 2, 3, 5, 2]))"
proof -
  have r1: "reshape (zeros [2, 2, 8]) [- 1, 8] = Inr (zeros [4, 8])"
    using infer_shape_minus1[of 32 "[]" 8] by (simp add: reshape_def bindE_def zeros_def)
  have st: "torch_stft example_lib (n_fft example_self) (hop_length example_self)
        (win_length example_self) (window example_self) (zeros [4, 8]) = Inr (zeros [4, 3, 5, 2])"
    by (simp add: example_lib_def example_self_def stft_shape_def example_frames shape_zeros)
  have r2: "reshape (zeros [4, 3, 5, 2]) (map int [2, 2, 3, 5, 2]) = Inr (zeros [2, 2, 3, 5, 2])"
    by (rule reshape_zeros) simp
  show ?thesis
    using r2 by (simp add: analysis_def shape_zeros dim_zeros r1 st pureT_def callT_def
        bindT_Pair_Inr)
qed

lemma example_flatten:
  "\<exists>c. flatten_complx (zeros [2, 2, 3, 5, 2]) (zeros [2, 2, 2, 5]) = Inr c \<and> shape c = [2, 2, 6, 5]"
proof -
  obtain t where t: "transpose_last2 (zeros [2, 2, 3, 5, 2]) = Inr t"
    "shape t = [2, 2, 3, 2, 5]" "length (data t) = 120"
    by (simp add: transpose_last2_def dim_zeros shape_zeros data_zeros Let_def length_swap_axes)
  have "reshape t (map int [2, 2] @ [- 1, int 5]) = Inr (Tensor [2, 2, 6, 5] (data t))"
    unfolding reshape_def infer_shape_minus1 using t(3) by (simp add: bindE_def)
  then show ?thesis
    using t(1) by (simp add: flatten_complx_def bindE_def shape_zeros)
qed

lemma example_features:
  "\<exists>c. shape c = [2, 2, 6, 5] \<and>
     features example_lib example_self (zeros [2, 2, 8]) others =
     ([CallStft, CallMagphase, CallMelScale, CallMFCC],
      Inr \<lparr> v_wavs = zeros [2, 2, 8], v_complx = c,
            v_linear = zeros [2, 2, 3, 5], v_phase = zeros [2, 2, 3, 5],
            v_mel = zeros [2, 2, 3, 5], v_mfcc = zeros [2, 2, 2, 5], v_others = others \<rparr>)"
proof -
  obtain c where c: "flatten_complx (zeros [2, 2, 3, 5, 2]) (zeros [2, 2, 2, 5]) = Inr c"
    "shape c = [2, 2, 6, 5]"
    using example_flatten by blast
  have mag: "torchaudio_magphase example_lib 2 (zeros [2, 2, 3, 5, 2])
             = Inr (zeros [2, 2, 3, 5], zeros [2, 2, 3, 5])"
    by (simp add: example_lib_def shape_zeros)
  have mel: "melscale example_self
             = Some (\<lambda>t. Inr (zeros (take (dim t - 2) (shape t) @ [3, last (shape t)])))"
    by (simp add: example_self_def)
  have mfcc: "mfcc_trans example_self
             = Some (\<lambda>t. Inr (zeros (butlast (shape t) @ [2, stft_frames (last (shape t)) 4 2])))"
    by (simp add: example_self_def)
  have "features example_lib example_self (zeros [2, 2, 8]) others =
     ([CallStft, CallMagphase, CallMelScale, CallMFCC],
      Inr \<lparr> v_wavs = zeros [2, 2, 8], v_complx = c,
            v_linear = zeros [2, 2, 3, 5], v_phase = zeros [2, 2, 3, 5],
            v_mel = zeros [2, 2, 3, 5], v_mfcc = zeros [2, 2, 2, 5], v_others = others \<rparr>)"
    unfolding features_def example_analysis
    by (simp add: bindT_Pair_Inr callT_def pureT_def mag mel mfcc shape_zeros dim_zeros
        example_frames c(1))
  then show ?thesis using c(2) by blast
qed

text \<open>
  A request for channel 2 of a two-channel waveform: the four transforms have run
  when the index error is raised.
\<close>

theorem eager_channel_check_counterexample:
  "forward example_lib example_self (Some (zeros [2, 2, 8]))
     (Some [\<lparr> feat_type = ''linear'', channel = 2, log = False, delta = 0, cmvn = False \<rparr>])
   = ([CallStft, CallMagphase, CallMelScale, CallMFCC], Inl IndexError)"
proof -
  obtain c where f: "features example_lib example_self (zeros [2, 2, 8]) (other_locals (Some (zeros [2, 2, 8]))) =
     ([CallStft, CallMagphase, CallMelScale, CallMFCC],
      Inr \<lparr> v_wavs = zeros [2, 2, 8], v_complx = c,
            v_linear = zeros [2, 2, 3, 5], v_phase = zeros [2, 2, 3, 5],
            v_mel = zeros [2, 2, 3, 5], v_mfcc = zeros [2, 2, 2, 5],
            v_others = other_locals (Some (zeros [2, 2, 8])) \<rparr>)"
    using example_features by blast
  have s: "select3 (zeros [2, 2, 3, 5]) 2 = Inl IndexError"
    by (simp add: select3_def dim_zeros shape_zeros norm_index_def Let_def bindE_def)
  show ?thesis
    by (simp add: forward_def forward_checks_def check_list_def bindE_def dim_zeros f
      bindT_Pair_Inr pureT_def select_feat_def lookup_var_def s)
qed


theorem channel_out_of_range_witness:
  "forward example_lib example_self (Some (zeros [2, 2, 8]))
     (Some [\<lparr> feat_type = ''mel'', channel = 0, log = False, delta = 0, cmvn = False \<rparr>,
            \<lparr> feat_type = ''linear'', channel = 7, log = False, delta = 0, cmvn = False \<rparr>])
   = ([CallStft, CallMagphase, CallMelScale, CallMFCC], Inl IndexError)"
proof -
  let ?w = "zeros [2, 2, 8]"
  let ?mel = "\<lparr> feat_type = ''mel'', channel = 0, log = False, delta = 0, cmvn = False \<rparr>"
  let ?lin = "\<lparr> feat_type = ''linear'', channel = 7, log = False, delta = 0, cmvn = False \<rparr>"
  obtain c where f: "features example_lib example_self ?w (other_locals (Some ?w)) =
     ([CallStft, CallMagphase, CallMelScale, CallMFCC],
      Inr \<lparr> v_wavs = ?w, v_complx = c,
            v_linear = zeros [2, 2, 3, 5], v_phase = zeros [2, 2, 3, 5],
            v_mel = zeros [2, 2, 3, 5], v_mfcc = zeros [2, 2, 2, 5],
            v_others = other_locals (Some ?w) \<rparr>)"
    using example_features by blast
  let ?vars = "\<lparr> v_wavs = ?w, v_complx = c,
            v_linear = zeros [2, 2, 3, 5], v_phase = zeros [2, 2, 3, 5],
            v_mel = zeros [2, 2, 3, 5], v_mfcc = zeros [2, 2, 2, 5],
            v_others = other_locals (Some ?w) \<rparr>"
  have chk: "forward_checks example_self (Some ?w) (Some [?mel, ?lin]) = Inr ([?mel, ?lin], ?w)"
    by (simp add: forward_checks_def check_list_def bindE_def dim_zeros)
  have fs: "snd (features example_lib example_self ?w (other_locals (Some ?w))) = Inr ?vars"
    by (simp add: f)
  have pre: "\<forall>b \<in> set [?mel]. \<exists>y. select_feat example_lib ?vars b = Inr y"
    by (simp add: select_feat_def lookup_var_def select3_def dim_zeros shape_zeros norm_index_def
        Let_def bindE_def cat2_def dim_def)
  have v: "lookup_var ?vars (feat_type ?lin) = Inr (zeros [2, 2, 3, 5])"
    by (simp add: lookup_var_def)
  have d: "3 \<le> dim (zeros [2, 2, 3, 5])" by (simp add: dim_zeros)
  have ch: "channel ?lin < - int (shape (zeros [2, 2, 3, 5]) ! (dim (zeros [2, 2, 3, 5]) - 3))
        \<or> int (shape (zeros [2, 2, 3, 5]) ! (dim (zeros [2, 2, 3, 5]) - 3)) \<le> channel ?lin"
    by (simp add: dim_zeros shape_zeros)
  show ?thesis
    using channel_out_of_range[OF chk fs _ pre v d ch, of "[]"] by simp
qed

subsection \<open>Blocks of a flat list\<close>

lemma concat_blocks_take:
  "concat (map (\<lambda>b. take n (drop (b * n) xs)) [0..<k]) = take (k * n) xs"
proof (induction k)
  case 0
  then show ?case by simp
next
  case (Suc k)
  have "take (k * n) xs @ take n (drop (k * n) xs) = take (k * n + n) xs"
    by (simp add: take_add)
  then show ?case using Suc by (simp add: add.commute)
qed

lemma concat_blocks:
  "length xs = k * n \<Longrightarrow> concat (map (\<lambda>b. take n (drop (b * n) xs)) [0..<k]) = xs"
  by (simp add: concat_blocks_take)

lemma length_concat_uniform:
  "(\<And>b. b < k \<Longrightarrow> length (f b) = n) \<Longrightarrow> length (concat (map f [0..<k])) = k * n"
  by (induction k) simp_all

lemma length_block:
  assumes "length xs = k * n" "b < k"
  shows "length (take n (drop (b * n) xs)) = n"
proof -
  have "Suc b * n \<le> k * n" using assms(2) by (intro mult_le_mono1) simp
  then show ?thesis using assms(1) by simp
qed

subsection \<open>Channel selection and concatenation\<close>

lemma select3_props:
  assumes w: "wf v" and sh: "shape v = pre @ [C, D, T]"
    and lo: "- int C \<le> c" and hi: "c < int C"
  shows "\<exists>raw. select3 v c = Inr raw \<and> wf raw \<and> shape raw = pre @ [D, T]
            \<and> set (data raw) \<subseteq> set (data v)"
proof -
  let ?i = "nat (if c < 0 then c + int C else c)"
  let ?f = "\<lambda>b. take (D * T) (drop ((b * C + ?i) * (D * T)) (data v))"
  let ?raw = "Tensor (pre @ [D, T]) (concat (map ?f [0..<prod_list pre]))"
  have n: "norm_index C c = Inr ?i" using lo hi by (simp add: norm_index_def)
  have iC: "?i < C" using lo hi by auto
  have len: "length (data v) = prod_list pre * C * (D * T)"
    using w sh by (simp add: wf_def)
  have s: "select3 v c = Inr ?raw"
    using sh n by (simp add: select3_def dim_def Let_def bindE_def nth_append)
  have blk: "length (?f b) = D * T" if "b < prod_list pre" for b
  proof -
    have "b * C + ?i < prod_list pre * C"
    proof -
      have "b * C + ?i < b * C + C" using iC by simp
      also have "\<dots> = Suc b * C" by simp
      also have "\<dots> \<le> prod_list pre * C" using that by (intro mult_le_mono1) simp
      finally show ?thesis .
    qed
    then show ?thesis using len by (intro length_block[where k="prod_list pre * C"]) simp_all
  qed
  have "length (concat (map ?f [0..<prod_list pre])) = prod_list pre * (D * T)"
    by (rule length_concat_uniform) (rule blk)
  then have wfr: "wf ?raw" by (simp add: wf_def)
  have sub: "set (data ?raw) \<subseteq> set (data v)"
    by (auto dest!: in_set_takeD in_set_dropD)
  show ?thesis using s wfr sub by auto
qed

lemma cat2_single:
  assumes "wf t" "shape t = pre @ [D, T]"
  shows "cat2 [t] = Inr t"
proof -
  have len: "length (data t) = prod_list pre * (D * T)" using assms by (simp add: wf_def)
  have d: "concat (map (\<lambda>b. take (D * T) (drop (b * (D * T)) (data t))) [0..<prod_list pre]) = data t"
    using len by (rule concat_blocks)
  have "cat2 [t] = Inr (Tensor (pre @ [D, T]) (data t))"
    using assms(2) d by (simp add: cat2_def dim_def Let_def nth_append)
  then show ?thesis using assms(2) by (cases t) simp
qed

subsection \<open>The stabilised logarithm\<close>

lemma flog_finite: "- eps < r \<Longrightarrow> flog (fadd (Fin r) (Fin eps)) = Fin (ln (r + eps))"
  by simp

text \<open>
  C9 fails as stated: \<^verbatim>\<open>select_feat\<close> takes the logarithm of whatever representation is
  requested, and a phase, a complex spectrum or a cepstrum has negative entries, whose
  logarithm is \<open>NaN\<close>.

  C9, amended. With \<^verbatim>\<open>log=True\<close>, \<^verbatim>\<open>select_feat\<close> applies \<open>log (x + 1e-10)\<close> to each
  element of the selected channel and hands the result to the delta and normalisation
  steps. When every entry of the requested representation is finite and greater than
  \<open>-1e-10\<close> (so for every non-negative representation, the all-zero one included), every
  entry of the logarithm is finite; with no delta and no normalisation it is the
  output.
\<close>

theorem log_finite:
  assumes v: "lookup_var vars (feat_type a) = Inr v" and w: "wf v"
    and sh: "shape v = pre @ [C, D, T]"
    and lo: "- int C \<le> channel a" and hi: "channel a < int C"
    and lg: "log a"
    and pos: "\<forall>x \<in> set (data v). \<exists>r. x = Fin r \<and> - eps < r"
  shows "\<exists>raw. select3 v (channel a) = Inr raw
           \<and> select_feat L vars a =
               bindE (delta_loop L (nat (delta a)) [log_eps raw]) (\<lambda>feats.
               bindE (cat2 feats) (\<lambda>feats. Inr (if cmvn a then cmvn_norm feats else feats)))
           \<and> (\<forall>x \<in> set (data (log_eps raw)). is_fin x)
           \<and> (\<forall>i < length (data raw). \<exists>r. data raw ! i = Fin r \<and> - eps < r
                  \<and> data (log_eps raw) ! i = Fin (ln (r + eps)))
           \<and> (delta a \<le> 0 \<and> \<not> cmvn a \<longrightarrow> select_feat L vars a = Inr (log_eps raw))"
proof -
  obtain raw where raw: "select3 v (channel a) = Inr raw" "wf raw" "shape raw = pre @ [D, T]"
    "set (data raw) \<subseteq> set (data v)"
    using select3_props[OF w sh lo hi] by blast
  have sf: "select_feat L vars a =
               bindE (delta_loop L (nat (delta a)) [log_eps raw]) (\<lambda>feats.
               bindE (cat2 feats) (\<lambda>feats. Inr (if cmvn a then cmvn_norm feats else feats)))"
    using v raw(1) lg by (simp add: select_feat_def bindE_def)
  have el: "\<exists>r. data raw ! i = Fin r \<and> - eps < r \<and> data (log_eps raw) ! i = Fin (ln (r + eps))"
    if "i < length (data raw)" for i
  proof -
    have "data raw ! i \<in> set (data v)" using that raw(4) by auto
    then obtain r where r: "data raw ! i = Fin r" "- eps < r" using pos by blast
    have "data (log_eps raw) ! i = flog (fadd (Fin r) (Fin eps))"
      using that r(1) by (simp add: log_eps_def map_tensor_def)
    then show ?thesis using r flog_finite[OF r(2)] by simp
  qed
  have fin: "\<forall>x \<in> set (data (log_eps raw)). is_fin x"
  proof
    fix x assume "x \<in> set (data (log_eps raw))"
    then obtain i where i: "i < length (data raw)" "x = data (log_eps raw) ! i"
      by (auto simp: log_eps_def map_tensor_def in_set_conv_nth)
    with el[OF i(1)] show "is_fin x" by auto
  qed
  have wl: "wf (log_eps raw)" "shape (log_eps raw) = pre @ [D, T]"
    using raw(2,3) by (simp_all add: log_eps_def map_tensor_def wf_def)
  have z: "select_feat L vars a = Inr (log_eps raw)" if "delta a \<le> 0" "\<not> cmvn a"
    using that sf cat2_single[OF wl] by (simp add: bindE_def)
  show ?thesis using raw(1) sf fin el z by blast
qed


text \<open>The logarithm of a phase: \<open>NaN\<close> where the phase is negative.\<close>

theorem log_negative_counterexample:
  "select_feat example_lib example_vars
     \<lparr> feat_type = ''phase'', channel = 0, log = True, delta = 0, cmvn = False \<rparr>
   = Inr (Tensor [1, 2, 2] [Fin (ln eps), NaN, Fin (ln (1 + eps)), NaN])"
proof -
  have v: "lookup_var example_vars ''phase''
           = Inr (Tensor [1, 1, 2, 2] [Fin 0, Fin (- 1), Fin 1, Fin (- 2)])"
    by (simp add: example_vars_def lookup_var_def)
  have s: "select3 (Tensor [1, 1, 2, 2] [Fin 0, Fin (- 1), Fin 1, Fin (- 2)]) 0
           = Inr (Tensor [1, 2, 2] [Fin 0, Fin (- 1), Fin 1, Fin (- 2)])"
    by (simp add: select3_def dim_def Let_def norm_index_def bindE_def)
  have e: "0 < eps" "eps < 1" by (simp_all add: eps_def)
  have l: "log_eps (Tensor [1, 2, 2] [Fin 0, Fin (- 1), Fin 1, Fin (- 2)])
           = Tensor [1, 2, 2] [Fin (ln eps), NaN, Fin (ln (1 + eps)), NaN]"
    using e by (simp add: log_eps_def map_tensor_def)
  have c: "cat2 [Tensor [1, 2, 2] [Fin (ln eps), NaN, Fin (ln (1 + eps)), NaN]]
           = Inr (Tensor [1, 2, 2] [Fin (ln eps), NaN, Fin (ln (1 + eps)), NaN])"
    by (rule cat2_single[where pre="[1]" and D=2 and T=2]) (simp_all add: wf_def)
  show ?thesis
    unfolding select_feat_def
    by (simp only: feat_args.select_convs v s l c bindE_Inr Let_def if_True if_False nat_0
        delta_loop.simps)
qed

theorem log_finite_witness:
  "select_feat example_lib example_vars
     \<lparr> feat_type = ''linear'', channel = 0, log = True, delta = 0, cmvn = False \<rparr>
   = Inr (Tensor [1, 2, 2] (replicate 4 (Fin (ln eps))))"
proof -
  let ?a = "\<lparr> feat_type = ''linear'', channel = 0, log = True, delta = 0, cmvn = False \<rparr>"
  have v: "lookup_var example_vars (feat_type ?a) = Inr (zeros [1, 1, 2, 2])"
    by (simp add: example_vars_def lookup_var_def)
  have sh: "shape (zeros [1, 1, 2, 2]) = [1] @ [1, 2, 2]" by (simp add: shape_zeros)
  have pos: "\<forall>x \<in> set (data (zeros [1, 1, 2, 2])). \<exists>r. x = Fin r \<and> - eps < r"
    by (simp add: zeros_def eps_def)
  have lo: "- int 1 \<le> channel ?a" and hi: "channel ?a < int 1" and lg: "log ?a" by simp_all
  have s: "select3 (zeros [1, 1, 2, 2]) (channel ?a) = Inr (zeros [1, 2, 2])"
    by (simp add: select3_def dim_def Let_def norm_index_def bindE_def zeros_def)
  have l: "log_eps (zeros [1, 2, 2]) = Tensor [1, 2, 2] (replicate 4 (Fin (ln eps)))"
    by (simp add: log_eps_def map_tensor_def zeros_def eps_def)
  from log_finite[OF v wf_zeros sh lo hi lg pos, of example_lib]
  obtain raw where r: "select3 (zeros [1, 1, 2, 2]) (channel ?a) = Inr raw"
    and z: "delta ?a \<le> 0 \<and> \<not> cmvn ?a \<longrightarrow> select_feat example_lib example_vars ?a = Inr (log_eps raw)"
    by blast
  have "raw = zeros [1, 2, 2]" using r s by simp
  moreover have "delta ?a \<le> 0 \<and> \<not> cmvn ?a" by simp
  ultimately show ?thesis using z l by simp
qed

subsection \<open>Delta stacking\<close>

lemma take_drop_concat_uniform:
  assumes "\<forall>ys \<in> set yss. length ys = n" "b < length yss"
  shows "take n (drop (b * n) (concat yss)) = yss ! b"
  using assms
proof (induction yss arbitrary: b)
  case Nil
  then show ?case by simp
next
  case (Cons ys yss)
  show ?case
  proof (cases b)
    case 0
    then show ?thesis using Cons.prems by simp
  next
    case (Suc b')
    then have "take n (drop (b' * n) (concat yss)) = yss ! b'"
      using Cons by simp
    then show ?thesis using Suc Cons.prems by simp
  qed
qed

lemma nth_concat_uniform:
  assumes "\<forall>ys \<in> set yss. length ys = n" "b < length yss" "k < n"
  shows "concat yss ! (b * n + k) = yss ! b ! k"
  using assms
proof (induction yss arbitrary: b)
  case Nil
  then show ?case by simp
next
  case (Cons ys yss)
  show ?case
  proof (cases b)
    case 0
    then show ?thesis using Cons.prems by (simp add: nth_append)
  next
    case (Suc b')
    then have "concat yss ! (b' * n + k) = yss ! b' ! k"
      using Cons by simp
    moreover have "Suc b' * n + k = length ys + (b' * n + k)" using Cons.prems by simp
    ultimately show ?thesis using Suc Cons.prems by (simp add: nth_append del: mult_Suc)
  qed
qed

lemma delta_loop_chain:
  assumes keep: "deltas_keep_shape L"
    and ne: "feats \<noteq> []" and two: "2 \<le> length s"
    and all: "\<forall>t \<in> set feats. wf t \<and> shape t = s"
  shows "\<exists>ds. delta_loop L n feats = Inr (feats @ ds) \<and> length ds = n
            \<and> (\<forall>t \<in> set ds. wf t \<and> shape t = s)
            \<and> (\<forall>k < n. compute_deltas L ((feats @ ds) ! (length feats - 1 + k))
                          = Inr ((feats @ ds) ! (length feats + k)))"
  using ne all
proof (induction n arbitrary: feats)
  case 0
  then show ?case by simp
next
  case (Suc n)
  have l: "wf (last feats) \<and> 2 \<le> dim (last feats)" "shape (last feats) = s"
    using Suc.prems two by (simp_all add: dim_def)
  then obtain d where d: "compute_deltas L (last feats) = Inr d" "wf d" "shape d = s"
    using keep unfolding deltas_keep_shape_def by metis
  have "feats @ [d] \<noteq> []" "\<forall>t \<in> set (feats @ [d]). wf t \<and> shape t = s"
    using Suc.prems d by auto
  from Suc.IH[OF this] obtain ds where ds:
    "delta_loop L n (feats @ [d]) = Inr ((feats @ [d]) @ ds)" "length ds = n"
    "\<forall>t \<in> set ds. wf t \<and> shape t = s"
    "\<forall>k < n. compute_deltas L (((feats @ [d]) @ ds) ! (length (feats @ [d]) - 1 + k))
                          = Inr (((feats @ [d]) @ ds) ! (length (feats @ [d]) + k))"
    by blast
  let ?ds = "d # ds"
  have r: "delta_loop L (Suc n) feats = Inr (feats @ ?ds)"
    using d(1) ds(1) by (simp add: bindE_def)
  have c: "compute_deltas L ((feats @ ?ds) ! (length feats - 1 + k))
             = Inr ((feats @ ?ds) ! (length feats + k))" if "k < Suc n" for k
  proof (cases k)
    case 0
    have "(feats @ ?ds) ! (length feats - 1) = last feats"
      using Suc.prems(1) by (simp add: nth_append last_conv_nth)
    then show ?thesis using 0 d(1) by simp
  next
    case (Suc k')
    then have "k' < n" using that by simp
    then have "compute_deltas L (((feats @ [d]) @ ds) ! (length (feats @ [d]) - 1 + k'))
                          = Inr (((feats @ [d]) @ ds) ! (length (feats @ [d]) + k'))"
      using ds(4) by blast
    moreover have "length (feats @ [d]) - 1 + k' = length feats - 1 + k"
      using Suc Suc.prems(1) by (cases feats) simp_all
    moreover have "length (feats @ [d]) + k' = length feats + k" using Suc by simp
    moreover have "(feats @ [d]) @ ds = feats @ d # ds" by simp
    ultimately show ?thesis by (simp only:)
  qed
  show ?case
    using r ds(2,3) d(2,3) c by (intro exI[of _ ?ds]) auto
qed

lemma cat2_uniform:
  assumes ne: "ts \<noteq> []" and all: "\<forall>t \<in> set ts. wf t \<and> shape t = pre @ [D, T]"
  shows "cat2 ts = Inr (Tensor (pre @ [length ts * D, T]) (cat_data (prod_list pre) (D * T) ts))"
proof -
  obtain t0 rest where ts: "ts = t0 # rest" using ne by (cases ts) auto
  have s0: "shape t0 = pre @ [D, T]" using all ts by simp
  have r: "dim t0 = length pre + 2" using s0 by (simp add: dim_def)
  have ok: "\<not> (\<exists>t \<in> set ts. dim t \<noteq> length pre + 2 \<or> take (length pre) (shape t) \<noteq> pre
                \<or> last (shape t) \<noteq> T)"
    using all by (auto simp: dim_def)
  have m: "map (\<lambda>t. shape t ! length pre) ts = replicate (length ts) D"
    using all by (induction ts) (auto simp: nth_append)
  have sm: "sum_list (map (\<lambda>t. shape t ! length pre) ts) = length ts * D"
    unfolding m by (simp add: sum_list_replicate)
  have dt: "map (\<lambda>t. take (shape t ! length pre * T) (drop (b * (shape t ! length pre * T)) (data t))) ts
        = map (\<lambda>t. take (D * T) (drop (b * (D * T)) (data t))) ts" for b
    using all by (intro map_cong) (auto simp: nth_append)
  have "cat2 ts = Inr (Tensor (pre @ [sum_list (map (\<lambda>t. shape t ! length pre) ts), T])
           (concat (map (\<lambda>b. concat (map (\<lambda>t. take (shape t ! length pre * T)
                 (drop (b * (shape t ! length pre * T)) (data t))) ts)) [0..<prod_list pre])))"
    using ok r s0 unfolding cat2_def ts[symmetric]
    by (simp add: ts Let_def del: set_simps list.map sum_list.Cons)
  then show ?thesis
    unfolding sm dt cat_data_def .
qed


lemma concat_map_concat:
  "concat (map (\<lambda>b. concat (g b)) xs) = concat (concat (map g xs))"
  by (induction xs) simp_all

lemma narrow2_cat_data:
  assumes all: "\<forall>t \<in> set ts. wf t \<and> shape t = pre @ [D, T]" and k: "k < length ts"
  shows "narrow2 (Tensor (pre @ [length ts * D, T]) (cat_data (prod_list pre) (D * T) ts)) (k * D) D
         = ts ! k"
proof -
  let ?B = "prod_list pre" and ?m = "D * T" and ?n = "length ts"
  let ?f = "\<lambda>b t. take ?m (drop (b * ?m) (data t))"
  let ?yss = "map (\<lambda>b. map (?f b) ts) [0..<?B]"
  let ?blocks = "concat ?yss"
  have len_t: "length (data t) = ?B * ?m" if "t \<in> set ts" for t
    using all that by (simp add: wf_def)
  have lenf: "length (?f b t) = ?m" if "b < ?B" "t \<in> set ts" for b t
    using len_t[OF that(2)] that(1) by (rule length_block)
  have cd: "cat_data ?B ?m ts = concat ?blocks"
    unfolding cat_data_def by (rule concat_map_concat)
  have all_m: "\<forall>x \<in> set ?blocks. length x = ?m"
    using lenf by auto
  have yss_n: "\<forall>ys \<in> set ?yss. length ys = ?n" by auto
  have len_blocks: "length ?blocks = ?B * ?n"
    by (rule length_concat_uniform) simp
  have nth_blocks: "?blocks ! (b * ?n + k) = ?f b (ts ! k)" if "b < ?B" for b
  proof -
    have "?blocks ! (b * ?n + k) = ?yss ! b ! k"
      using yss_n _ k by (rule nth_concat_uniform) (simp add: that)
    then show ?thesis using that k by simp
  qed
  have blk: "take (D * T) (drop ((b * (?n * D) + k * D) * T) (cat_data ?B ?m ts)) = ?f b (ts ! k)"
    if "b < ?B" for b
  proof -
    have i: "(b * (?n * D) + k * D) * T = (b * ?n + k) * ?m"
      by (simp add: algebra_simps)
    have "b * ?n + k < ?B * ?n"
    proof -
      have "b * ?n + k < b * ?n + ?n" using k by simp
      also have "\<dots> = Suc b * ?n" by simp
      also have "\<dots> \<le> ?B * ?n" using that by (intro mult_le_mono1) simp
      finally show ?thesis .
    qed
    then have "take ?m (drop ((b * ?n + k) * ?m) (concat ?blocks)) = ?blocks ! (b * ?n + k)"
      using all_m len_blocks by (intro take_drop_concat_uniform) simp_all
    then show ?thesis unfolding cd i using nth_blocks[OF that] by simp
  qed
  have tk: "ts ! k \<in> set ts" using k by simp
  have "concat (map (\<lambda>b. take (D * T) (drop ((b * (?n * D) + k * D) * T) (cat_data ?B ?m ts))) [0..<?B])
        = concat (map (\<lambda>b. ?f b (ts ! k)) [0..<?B])"
    using blk by (intro arg_cong[where f=concat] map_cong) simp_all
  also have "\<dots> = data (ts ! k)"
    using len_t[OF tk] by (rule concat_blocks)
  finally have d: "concat (map (\<lambda>b. take (D * T) (drop ((b * (?n * D) + k * D) * T)
                      (cat_data ?B ?m ts))) [0..<?B]) = data (ts ! k)" .
  have "narrow2 (Tensor (pre @ [?n * D, T]) (cat_data ?B ?m ts)) (k * D) D
        = Tensor (pre @ [D, T]) (data (ts ! k))"
    unfolding narrow2_def by (simp add: Let_def nth_append d)
  moreover have "shape (ts ! k) = pre @ [D, T]" using all tk by blast
  ultimately show ?thesis by (cases "ts ! k") simp
qed

lemma wf_cat_data:
  assumes all: "\<forall>t \<in> set ts. wf t \<and> shape t = pre @ [D, T]"
  shows "wf (Tensor (pre @ [length ts * D, T]) (cat_data (prod_list pre) (D * T) ts))"
proof -
  have lenf: "length (take (D * T) (drop (b * (D * T)) (data t))) = D * T"
    if "b < prod_list pre" "t \<in> set ts" for b t
  proof -
    have "length (data t) = prod_list pre * (D * T)" using all that(2) by (simp add: wf_def)
    then show ?thesis using that(1) by (rule length_block)
  qed
  have inner: "length (concat (map (\<lambda>t. take (D * T) (drop (b * (D * T)) (data t))) ts))
               = length ts * (D * T)" if "b < prod_list pre" for b
    using lenf[OF that] by (induction ts) simp_all
  have "length (cat_data (prod_list pre) (D * T) ts) = prod_list pre * (length ts * (D * T))"
    unfolding cat_data_def by (rule length_concat_uniform) (rule inner)
  then show ?thesis by (simp add: wf_def)
qed

text \<open>
  C4. For a request with \<open>delta = d\<close> on a representation with \<open>D\<close> features per channel,
  and a delta operator that keeps the shape of its argument, the loop of lines 106
  and 107 builds the list \<open>ds\<close> of \<open>d + 1\<close> tensors that starts with the selected (and,
  if requested, log-scaled) channel and in which each further tensor is the delta of
  the one before it. The output before normalisation has \<open>(d + 1) * D\<close> features, and
  its block \<open>k\<close> of \<open>D\<close> features along the feature axis is \<open>ds ! k\<close>: the original, the
  first derivative, up to the \<open>d\<close>-th derivative.
\<close>

theorem delta_stacking:
  assumes keep: "deltas_keep_shape L"
    and v: "lookup_var vars (feat_type a) = Inr v" and w: "wf v"
    and sh: "shape v = pre @ [C, D, T]"
    and lo: "- int C \<le> channel a" and hi: "channel a < int C"
    and nc: "\<not> cmvn a"
  shows "\<exists>raw ds out. select3 v (channel a) = Inr raw
           \<and> length ds = nat (delta a) + 1
           \<and> ds ! 0 = (if log a then log_eps raw else raw)
           \<and> (\<forall>k < nat (delta a). compute_deltas L (ds ! k) = Inr (ds ! Suc k))
           \<and> select_feat L vars a = Inr out \<and> wf out
           \<and> shape out = pre @ [(nat (delta a) + 1) * D, T]
           \<and> (\<forall>k \<le> nat (delta a). narrow2 out (k * D) D = ds ! k)"
proof -
  let ?d = "nat (delta a)"
  obtain raw where raw: "select3 v (channel a) = Inr raw" "wf raw" "shape raw = pre @ [D, T]"
    using select3_props[OF w sh lo hi] by blast
  let ?raw = "if log a then log_eps raw else raw"
  have r': "wf ?raw" "shape ?raw = pre @ [D, T]"
    using raw(2,3) by (simp_all add: log_eps_def map_tensor_def wf_def)
  have "[?raw] \<noteq> []" "2 \<le> length (pre @ [D, T])" "\<forall>t \<in> set [?raw]. wf t \<and> shape t = pre @ [D, T]"
    using r' by simp_all
  from delta_loop_chain[OF keep this, of ?d] obtain ds where ds:
    "delta_loop L ?d [?raw] = Inr ([?raw] @ ds)" "length ds = ?d"
    "\<forall>t \<in> set ds. wf t \<and> shape t = pre @ [D, T]"
    "\<forall>k < ?d. compute_deltas L (([?raw] @ ds) ! (length [?raw] - 1 + k))
                  = Inr (([?raw] @ ds) ! (length [?raw] + k))"
    by blast
  let ?ts = "?raw # ds"
  let ?out = "Tensor (pre @ [length ?ts * D, T]) (cat_data (prod_list pre) (D * T) ?ts)"
  have all: "\<forall>t \<in> set ?ts. wf t \<and> shape t = pre @ [D, T]" using r' ds(3) by simp
  have c: "cat2 ?ts = Inr ?out" using all by (intro cat2_uniform) simp_all
  have sf: "select_feat L vars a = Inr ?out"
    using v raw(1) ds(1) c nc by (simp add: select_feat_def bindE_def Let_def)
  have len: "length ?ts = ?d + 1" using ds(2) by simp
  have chain: "\<forall>k < ?d. compute_deltas L (?ts ! k) = Inr (?ts ! Suc k)"
    using ds(4) by simp
  have blocks: "\<forall>k \<le> ?d. narrow2 ?out (k * D) D = ?ts ! k"
    using narrow2_cat_data[OF all] len by simp
  have wo: "wf ?out" using all by (rule wf_cat_data)
  have so: "shape ?out = pre @ [(?d + 1) * D, T]" using len by simp
  show ?thesis
    using raw(1) len chain sf wo so blocks
    by (intro exI[of _ raw] exI[of _ ?ts] exI[of _ ?out]) simp
qed


lemma length_delta_row: "length (delta_row xs) = length xs"
  by (simp add: delta_row_def)

lemma delta_rows_keeps:
  assumes "wf x" "2 \<le> dim x"
  shows "wf (delta_rows x) \<and> shape (delta_rows x) = shape x"
proof -
  let ?T = "last (shape x)" and ?P = "prod_list (butlast (shape x))"
  have ne: "shape x \<noteq> []" using assms(2) by (auto simp: dim_def)
  then have "prod_list (shape x) = prod_list (butlast (shape x) @ [last (shape x)])"
    by simp
  then have len: "length (data x) = ?P * ?T" using assms(1) by (simp add: wf_def)
  have "length (delta_row (take ?T (drop (r * ?T) (data x)))) = ?T" if "r < ?P" for r
    unfolding length_delta_row using len that by (rule length_block)
  then have "length (concat (map (\<lambda>r. delta_row (take ?T (drop (r * ?T) (data x)))) [0..<?P]))
             = ?P * ?T"
    by (rule length_concat_uniform)
  then show ?thesis using len assms(1) by (simp add: delta_rows_def wf_def)
qed

lemma example_lib_keeps: "deltas_keep_shape example_lib"
  using delta_rows_keeps by (simp add: deltas_keep_shape_def example_lib_def)

theorem delta_stacking_witness:
  "\<exists>out. select_feat example_lib example_vars
            \<lparr> feat_type = ''mel'', channel = 0, log = False, delta = 2, cmvn = False \<rparr> = Inr out
         \<and> wf out \<and> shape out = [1, 9, 2]"
proof -
  let ?a = "\<lparr> feat_type = ''mel'', channel = 0, log = False, delta = 2, cmvn = False \<rparr>"
  have v: "lookup_var example_vars (feat_type ?a) = Inr (zeros [1, 1, 3, 2])"
    by (simp add: example_vars_def lookup_var_def)
  have sh: "shape (zeros [1, 1, 3, 2]) = [1] @ [1, 3, 2]" by (simp add: shape_zeros)
  have lo: "- int 1 \<le> channel ?a" and hi: "channel ?a < int 1" and nc: "\<not> cmvn ?a" by simp_all
  from delta_stacking[OF example_lib_keeps v wf_zeros sh lo hi nc]
  obtain out where "select_feat example_lib example_vars ?a = Inr out" "wf out"
    "shape out = [1] @ [(nat (delta ?a) + 1) * 3, 2]"
    by blast
  then show ?thesis by simp
qed

subsection \<open>Mean and deviation of a finite row\<close>












subsection \<open>The normalisation of a tensor\<close>









subsection \<open>Exchanging axes\<close>

lemma index_step: "x < m \<Longrightarrow> y < d \<Longrightarrow> x * d + y < m * (d::nat)"
proof -
  assume x: "x < m" and y: "y < d"
  have "x * d + y < x * d + d" using y by simp
  also have "\<dots> = Suc x * d" by simp
  also have "\<dots> \<le> m * d" using x by (intro mult_le_mono1) simp
  finally show ?thesis .
qed

lemma index_bound:
  assumes "h < n" "i < a" "j < b" "k < c"
  shows "((h * a + i) * b + j) * c + k < n * a * b * (c::nat)"
  using assms by (intro index_step) 

lemma index_digits:
  assumes "i < a" "j < b" "k < (c::nat)"
  shows "(((h * a + i) * b + j) * c + k) mod c = k"
    and "((((h * a + i) * b + j) * c + k) div c) mod b = j"
    and "((((h * a + i) * b + j) * c + k) div (c * b)) mod a = i"
    and "(((h * a + i) * b + j) * c + k) div (c * b * a) = h"
proof -
  let ?q = "((h * a + i) * b + j) * c + k"
  show "?q mod c = k" using assms(3) by simp
  have d1: "?q div c = (h * a + i) * b + j" using assms(3) by simp
  show "(?q div c) mod b = j" unfolding d1 using assms(2) by simp
  have d2: "?q div (c * b) = h * a + i"
    unfolding div_mult2_eq d1 using assms(2) by simp
  show "(?q div (c * b)) mod a = i" unfolding d2 using assms(1) by simp
  show "?q div (c * b * a) = h"
    unfolding div_mult2_eq[of ?q "c * b" a] d2 using assms(1) by simp
qed

lemma index_decompose:
  "q = (((q div (c * b * a)) * a + (q div (c * b)) mod a) * b + (q div c) mod b) * c + q mod (c::nat)"
proof -
  have "(q div (c * b * a)) * a + (q div (c * b)) mod a = q div (c * b)"
    unfolding div_mult2_eq[of q "c * b" a] by simp
  moreover have "(q div (c * b)) * b + (q div c) mod b = q div c"
    unfolding div_mult2_eq[of q c b] by simp
  ultimately show ?thesis by simp
qed

lemma swap_axes_nth:
  assumes len: "length xs = n * a * b * c" and "h < n" "i < a" "j < b" "k < c"
  shows "swap_axes a b c xs ! (((h * b + j) * a + i) * c + k) = xs ! (((h * a + i) * b + j) * c + k)"
proof -
  let ?q = "((h * b + j) * a + i) * c + k"
  have "?q < n * b * a * c" using assms(2,4,3,5) by (rule index_bound)
  then have q: "?q < length xs" using len by (simp add: ac_simps)
  have dg: "?q mod c = k" "(?q div c) mod a = i" "(?q div (c * a)) mod b = j" "?q div (c * a * b) = h"
    using index_digits[OF assms(4,3,5), of h] by simp_all
  have "swap_axes a b c xs ! ?q =
        xs ! ((((?q div (c * a * b)) * a + (?q div c) mod a) * b + (?q div (c * a)) mod b) * c
               + ?q mod c)"
    using q unfolding swap_axes_def by (subst nth_map_upt) simp_all
  then show ?thesis by (simp only: dg)
qed


lemma swap_axes_involution:
  assumes len: "length xs = n * a * b * c"
  shows "swap_axes b a c (swap_axes a b c xs) = xs"
proof (rule nth_equalityI)
  show "length (swap_axes b a c (swap_axes a b c xs)) = length xs"
    by (simp add: length_swap_axes)
  fix q assume "q < length (swap_axes b a c (swap_axes a b c xs))"
  then have q: "q < n * a * b * c" using len by (simp add: length_swap_axes)
  then have pos: "0 < a" "0 < b" "0 < c" by (cases a; cases b; cases c; simp)+
  let ?k = "q mod c" and ?j = "(q div c) mod b" and ?i = "(q div (c * b)) mod a"
    and ?h = "q div (c * b * a)"
  have dq: "q = ((?h * a + ?i) * b + ?j) * c + ?k" by (rule index_decompose)
  have bd: "?i < a" "?j < b" "?k < c" using pos by simp_all
  have "q < n * (c * b * a)" using q by (simp add: ac_simps)
  then have h: "?h < n" by (rule less_mult_imp_div_less)
  have l2: "length (swap_axes a b c xs) = n * b * a * c"
    using len by (simp add: length_swap_axes ac_simps)
  have "swap_axes b a c (swap_axes a b c xs) ! (((?h * a + ?i) * b + ?j) * c + ?k)
        = swap_axes a b c xs ! (((?h * b + ?j) * a + ?i) * c + ?k)"
    using l2 h bd(2,1,3) by (rule swap_axes_nth)
  also have "\<dots> = xs ! (((?h * a + ?i) * b + ?j) * c + ?k)"
    using len h bd by (rule swap_axes_nth)
  finally show "swap_axes b a c (swap_axes a b c xs) ! q = xs ! q"
    using dq by simp
qed

subsection \<open>The two entry forms of the synthesis\<close>

lemma interleaved_swap:
  assumes "shape p = bs @ [F, T, 2]"
  shows "interleaved p = Tensor (bs @ [T, 2 * F]) (swap_axes F T 2 (data p))"
  using assms by (simp add: interleaved_def swap_axes_def Let_def nth_append ac_simps)

lemma to_paired_interleaved:
  assumes w: "wf p" and sh: "shape p = bs @ [F, T, 2]" and F: "F \<noteq> 1"
    and ne: "0 < prod_list (shape p)"
  shows "to_paired (interleaved p) = Inr p"
proof -
  let ?B = "prod_list bs"
  let ?i = "Tensor (bs @ [T, 2 * F]) (swap_axes F T 2 (data p))"
  have len: "length (data p) = ?B * F * T * 2" using w sh by (simp add: wf_def)
  have pos: "0 < ?B" "0 < F" "0 < T" using ne sh by simp_all
  have il: "interleaved p = ?i" using sh by (rule interleaved_swap)
  have n2: "last (shape ?i) \<noteq> 2" using F by simp
  have dv: "length (data ?i) div (prod_list (bs @ [T]) * 2) = F"
           "length (data ?i) mod (prod_list (bs @ [T]) * 2) = 0"
           "prod_list (bs @ [T]) * 2 \<noteq> 0"
    using len pos by (simp_all add: length_swap_axes ac_simps)
  have "infer_shape (length (data ?i)) (map int (bs @ [T]) @ [- 1, int 2])
        = Inr ((bs @ [T]) @ [F, 2])"
    unfolding infer_shape_minus1 using dv by simp
  then have rs: "reshape ?i (map int (butlast (shape ?i)) @ [- 1, 2])
        = Inr (Tensor (bs @ [T, F, 2]) (data ?i))"
    by (simp add: reshape_def bindE_def butlast_append)
  have tr: "transpose_23 (Tensor (bs @ [T, F, 2]) (data ?i))
        = Inr (Tensor (bs @ [F, T, 2]) (swap_axes T F 2 (swap_axes F T 2 (data p))))"
    by (simp add: transpose_23_def dim_def Let_def nth_append)
  have inv: "swap_axes T F 2 (swap_axes F T 2 (data p)) = data p"
    using len by (rule swap_axes_involution)
  have "to_paired ?i = Inr (Tensor (bs @ [F, T, 2]) (data p))"
    unfolding to_paired_def using n2 rs tr inv by (simp add: bindE_def)
  then show ?thesis using il sh by (cases p) simp
qed

text \<open>
  C10. A complex spectrogram is a non-empty tensor of shape \<open>(..., F, T, 2)\<close> with
  \<open>F = n_fft/2 + 1 \<ge> 2\<close> bins. Its interleaved form has a last axis of \<open>2 * F \<noteq> 2\<close>
  entries, so lines 127 to 130 view it as \<open>(..., T, F, 2)\<close> and exchange the axes of
  \<open>T\<close> and \<open>F\<close>: the result is the paired form itself, which line 127 leaves as it
  is. Both entries hand the same tensor to the inverse transform and return the same
  waveform.
\<close>

theorem istft_interleaved:
  assumes w: "wf p" and sh: "shape p = bs @ [F, T, 2]" and F: "2 \<le> F"
    and ne: "0 < prod_list (shape p)"
  shows "to_paired (interleaved p) = Inr p
       \<and> to_paired p = Inr p
       \<and> istft L self linears phases linear_power (Some (interleaved p))
           = istft L self linears phases linear_power (Some p)
       \<and> istft L self linears phases linear_power (Some p)
           = torchaudio_istft L (n_fft self) (hop_length self) (win_length self) (window self) p"
proof -
  have F1: "F \<noteq> 1" using F by simp
  have a: "to_paired (interleaved p) = Inr p" using w sh F1 ne by (rule to_paired_interleaved)
  have b: "to_paired p = Inr p" using sh by (simp add: to_paired_def)
  show ?thesis using a b by (simp add: istft_def bindE_def)
qed


theorem istft_interleaved_witness:
  "interleaved (Tensor [2, 2, 2] [Fin 1, Fin 2, Fin 3, Fin 4, Fin 5, Fin 6, Fin 7, Fin 8])
     = Tensor [2, 4] [Fin 1, Fin 2, Fin 5, Fin 6, Fin 3, Fin 4, Fin 7, Fin 8]
   \<and> istft example_lib example_self None None 2
       (Some (Tensor [2, 4] [Fin 1, Fin 2, Fin 5, Fin 6, Fin 3, Fin 4, Fin 7, Fin 8]))
     = istft example_lib example_self None None 2
       (Some (Tensor [2, 2, 2] [Fin 1, Fin 2, Fin 3, Fin 4, Fin 5, Fin 6, Fin 7, Fin 8]))"
proof -
  let ?p = "Tensor [2, 2, 2] [Fin 1, Fin 2, Fin 3, Fin 4, Fin 5, Fin 6, Fin 7, Fin 8]"
  have i: "interleaved ?p = Tensor [2, 4] [Fin 1, Fin 2, Fin 5, Fin 6, Fin 3, Fin 4, Fin 7, Fin 8]"
    by (simp add: interleaved_def Let_def upt_rec)
  have w: "wf ?p" by (simp add: wf_def)
  have sh: "shape ?p = [] @ [2, 2, 2]" by simp
  have ne: "0 < prod_list (shape ?p)" by simp
  show ?thesis
    using istft_interleaved[OF w sh _ ne, of example_lib example_self None None 2]
    by (simp add: i)
qed

subsection \<open>The outputs of the forward pass\<close>

lemma mapE_Inr:
  "mapE f xs = Inr ys \<Longrightarrow> length ys = length xs \<and> (\<forall>i < length xs. f (xs ! i) = Inr (ys ! i))"
proof (induction xs arbitrary: ys)
  case Nil
  then show ?case by simp
next
  case (Cons x xs)
  from Cons.prems obtain y ys' where y: "f x = Inr y" "mapE f xs = Inr ys'" "ys = y # ys'"
    by (auto simp: bindE_def split: sum.splits)
  from Cons.IH[OF y(2)] have ih: "length ys' = length xs" "\<forall>i < length xs. f (xs ! i) = Inr (ys' ! i)"
    by simp_all
  show ?case
    using y(1,3) ih by (auto simp: nth_Cons split: nat.splits)
qed

lemma select_feat_steps: "select_feat L vars a = select_steps L vars a"
  by (simp add: select_feat_def select_steps_def step_channel_def step_log_def step_delta_def
      step_cmvn_def bindE_def Let_def split: sum.splits)

lemma transpose_last2_Inr:
  assumes "transpose_last2 f = Inr g"
  shows "2 \<le> dim f"
    and "shape g = take (dim f - 2) (shape f) @ [shape f ! (dim f - 1), shape f ! (dim f - 2)]"
    and "data g = swap_axes (shape f ! (dim f - 2)) (shape f ! (dim f - 1)) 1 (data f)"
  using assms by (auto simp: transpose_last2_def Let_def dim_def split: if_splits)

lemma shape_split2:
  assumes "2 \<le> length s"
  shows "s = take (length s - 2) s @ [s ! (length s - 2), s ! (length s - 1)]"
proof -
  have "drop (length s - 2) s = [s ! (length s - 2), s ! (length s - 1)]"
    using assms by (intro nth_equalityI) (auto simp: nth_Cons split: nat.splits)
  then show ?thesis by (metis append_take_drop_id)
qed

lemma transpose_elements:
  assumes tr: "transpose_last2 f = Inr g" and w: "wf f"
    and h: "h < prod_list (take (dim f - 2) (shape f))"
    and t: "t < shape f ! (dim f - 1)" and d: "d < shape f ! (dim f - 2)"
  shows "data g ! ((h * shape f ! (dim f - 1) + t) * shape f ! (dim f - 2) + d)
         = data f ! ((h * shape f ! (dim f - 2) + d) * shape f ! (dim f - 1) + t)"
proof -
  let ?D = "shape f ! (dim f - 2)" and ?T = "shape f ! (dim f - 1)"
  let ?P = "prod_list (take (dim f - 2) (shape f))"
  have two: "2 \<le> length (shape f)" using transpose_last2_Inr(1)[OF tr] by (simp add: dim_def)
  have "prod_list (shape f) = prod_list (take (length (shape f) - 2) (shape f) @ [?D, ?T])"
    using shape_split2[OF two] by (simp add: dim_def)
  then have len: "length (data f) = ?P * ?D * ?T * 1"
    using w by (simp add: wf_def dim_def)
  have "swap_axes ?D ?T 1 (data f) ! (((h * ?T + t) * ?D + d) * 1 + 0)
        = data f ! (((h * ?D + d) * ?T + t) * 1 + 0)"
    using len h d t by (rule swap_axes_nth) simp
  then show ?thesis using transpose_last2_Inr(3)[OF tr] by simp
qed

text \<open>
  C6. When \<^verbatim>\<open>forward\<close> returns, it returns one tensor for each request, in the order
  of the request list. Output \<open>i\<close> is computed from request \<open>i\<close> alone (and the
  representations shared by all requests): it is the result \<open>f\<close> of \<^verbatim>\<open>select_feat\<close> on
  that request, which is the composition of the four steps in the order channel
  selection, logarithm, delta, normalisation, with its last two axes exchanged, so
  that a feature of shape \<open>(..., D, T)\<close> is returned with shape \<open>(..., T, D)\<close> and
  element \<open>(h, t, d)\<close> of the output is element \<open>(h, d, t)\<close> of \<open>f\<close>.
\<close>

theorem forward_outputs:
  assumes ok: "snd (forward L self wavs fl0) = Inr outs"
  shows "\<exists>fl w vars. forward_checks self wavs fl0 = Inr (fl, w)
           \<and> snd (features L self w (other_locals wavs)) = Inr vars
           \<and> length outs = length fl
           \<and> (\<forall>i < length fl. \<exists>f.
                 select_feat L vars (fl ! i) = Inr f
               \<and> select_steps L vars (fl ! i) = Inr f
               \<and> transpose_last2 f = Inr (outs ! i)
               \<and> 2 \<le> dim f
               \<and> shape (outs ! i) = take (dim f - 2) (shape f)
                                      @ [shape f ! (dim f - 1), shape f ! (dim f - 2)]
               \<and> (wf f \<longrightarrow>
                    (\<forall>h t d. h < prod_list (take (dim f - 2) (shape f))
                          \<and> t < shape f ! (dim f - 1) \<and> d < shape f ! (dim f - 2) \<longrightarrow>
                       data (outs ! i) ! ((h * shape f ! (dim f - 1) + t) * shape f ! (dim f - 2) + d)
                       = data f ! ((h * shape f ! (dim f - 2) + d) * shape f ! (dim f - 1) + t))))"
proof -
  obtain fl w where chk: "forward_checks self wavs fl0 = Inr (fl, w)"
    using ok by (cases "forward_checks self wavs fl0") (auto simp: forward_def)
  let ?k = "\<lambda>vars. pureT (bindE (mapE (select_feat L vars) fl) transpose_list)"
  have fw: "forward L self wavs fl0 = bindT (features L self w (other_locals wavs)) ?k"
    using chk by (simp add: forward_def)
  from ok[unfolded fw] obtain vars where
    vars: "snd (features L self w (other_locals wavs)) = Inr vars"
    and k: "snd (?k vars) = Inr outs"
    by (rule bindT_Inr)
  from k obtain fs where fs: "mapE (select_feat L vars) fl = Inr fs"
    and tr: "mapE transpose_last2 fs = Inr outs"
    by (auto simp: snd_pureT bindE_def transpose_list_def split: sum.splits)
  have l1: "length fs = length fl" and s: "\<forall>i < length fl. select_feat L vars (fl ! i) = Inr (fs ! i)"
    using mapE_Inr[OF fs] by simp_all
  have l2: "length outs = length fs" and t: "\<forall>i < length fs. transpose_last2 (fs ! i) = Inr (outs ! i)"
    using mapE_Inr[OF tr] by simp_all
  have each: "\<exists>f. select_feat L vars (fl ! i) = Inr f
               \<and> select_steps L vars (fl ! i) = Inr f
               \<and> transpose_last2 f = Inr (outs ! i)
               \<and> 2 \<le> dim f
               \<and> shape (outs ! i) = take (dim f - 2) (shape f)
                                      @ [shape f ! (dim f - 1), shape f ! (dim f - 2)]
               \<and> (wf f \<longrightarrow>
                    (\<forall>h t d. h < prod_list (take (dim f - 2) (shape f))
                          \<and> t < shape f ! (dim f - 1) \<and> d < shape f ! (dim f - 2) \<longrightarrow>
                       data (outs ! i) ! ((h * shape f ! (dim f - 1) + t) * shape f ! (dim f - 2) + d)
                       = data f ! ((h * shape f ! (dim f - 2) + d) * shape f ! (dim f - 1) + t)))"
    if i: "i < length fl" for i
  proof -
    have a: "select_feat L vars (fl ! i) = Inr (fs ! i)" using s i by simp
    have b: "transpose_last2 (fs ! i) = Inr (outs ! i)" using t i l1 by simp
    show ?thesis
      using a b a[unfolded select_feat_steps] transpose_last2_Inr(1,2)[OF b] transpose_elements[OF b]
      by (intro exI[of _ "fs ! i"]) simp
  qed
  show ?thesis
    using chk vars l1 l2 each by (intro exI[of _ fl] exI[of _ w] exI[of _ vars]) simp
qed


lemma select_feat_plain:
  assumes v: "lookup_var vars (feat_type a) = Inr v" and w: "wf v"
    and sh: "shape v = pre @ [C, D, T]"
    and lo: "- int C \<le> channel a" and hi: "channel a < int C"
    and nd: "delta a \<le> 0" and nc: "\<not> cmvn a"
  shows "\<exists>f. select_feat L vars a = Inr f \<and> wf f \<and> shape f = pre @ [D, T]"
proof -
  obtain raw where raw: "select3 v (channel a) = Inr raw" "wf raw" "shape raw = pre @ [D, T]"
    using select3_props[OF w sh lo hi] by blast
  let ?f = "if log a then log_eps raw else raw"
  have f: "wf ?f" "shape ?f = pre @ [D, T]"
    using raw(2,3) by (simp_all add: log_eps_def map_tensor_def wf_def)
  have "select_feat L vars a = Inr ?f"
    using v raw(1) nd nc cat2_single[OF f] by (simp add: select_feat_def bindE_def Let_def)
  then show ?thesis using f by blast
qed

theorem forward_outputs_witness:
  "\<exists>outs. snd (forward example_lib example_self (Some (zeros [2, 2, 8]))
              (Some [\<lparr> feat_type = ''linear'', channel = 1, log = True, delta = 0, cmvn = False \<rparr>,
                     \<lparr> feat_type = ''mfcc'', channel = 0, log = False, delta = 0, cmvn = False \<rparr>]))
            = Inr outs
         \<and> length outs = 2 \<and> shape (outs ! 0) = [2, 5, 3] \<and> shape (outs ! 1) = [2, 5, 2]"
proof -
  let ?w = "zeros [2, 2, 8]"
  let ?r1 = "\<lparr> feat_type = ''linear'', channel = 1, log = True, delta = 0, cmvn = False \<rparr>"
  let ?r2 = "\<lparr> feat_type = ''mfcc'', channel = 0, log = False, delta = 0, cmvn = False \<rparr>"
  obtain c where f: "features example_lib example_self ?w (other_locals (Some ?w)) =
     ([CallStft, CallMagphase, CallMelScale, CallMFCC],
      Inr \<lparr> v_wavs = ?w, v_complx = c,
            v_linear = zeros [2, 2, 3, 5], v_phase = zeros [2, 2, 3, 5],
            v_mel = zeros [2, 2, 3, 5], v_mfcc = zeros [2, 2, 2, 5],
            v_others = other_locals (Some ?w) \<rparr>)"
    using example_features by blast
  let ?vars = "\<lparr> v_wavs = ?w, v_complx = c,
            v_linear = zeros [2, 2, 3, 5], v_phase = zeros [2, 2, 3, 5],
            v_mel = zeros [2, 2, 3, 5], v_mfcc = zeros [2, 2, 2, 5],
            v_others = other_locals (Some ?w) \<rparr>"
  have chk: "forward_checks example_self (Some ?w) (Some [?r1, ?r2]) = Inr ([?r1, ?r2], ?w)"
    by (simp add: forward_checks_def check_list_def bindE_def dim_zeros)
  have v1: "lookup_var ?vars (feat_type ?r1) = Inr (zeros [2, 2, 3, 5])"
    and v2: "lookup_var ?vars (feat_type ?r2) = Inr (zeros [2, 2, 2, 5])"
    by (simp_all add: lookup_var_def)
  have s1: "shape (zeros [2, 2, 3, 5]) = [2] @ [2, 3, 5]"
    and s2: "shape (zeros [2, 2, 2, 5]) = [2] @ [2, 2, 5]"
    by (simp_all add: shape_zeros)
  obtain f1 where f1: "select_feat example_lib ?vars ?r1 = Inr f1" "shape f1 = [2] @ [3, 5]"
    using select_feat_plain[OF v1 wf_zeros s1, of example_lib] by auto
  obtain f2 where f2: "select_feat example_lib ?vars ?r2 = Inr f2" "shape f2 = [2] @ [2, 5]"
    using select_feat_plain[OF v2 wf_zeros s2, of example_lib] by auto
  obtain g1 where g1: "transpose_last2 f1 = Inr g1"
    using f1(2) by (simp add: transpose_last2_def dim_def Let_def)
  obtain g2 where g2: "transpose_last2 f2 = Inr g2"
    using f2(2) by (simp add: transpose_last2_def dim_def Let_def)
  have run: "snd (forward example_lib example_self (Some ?w) (Some [?r1, ?r2])) = Inr [g1, g2]"
    unfolding forward_def chk
    by (simp add: f bindT_Pair_Inr pureT_def f1(1) f2(1) g1 g2 bindE_def transpose_list_def)
  from forward_outputs[OF run] obtain fl w vars where o:
    "forward_checks example_self (Some ?w) (Some [?r1, ?r2]) = Inr (fl, w)"
    "snd (features example_lib example_self w (other_locals (Some ?w))) = Inr vars"
    "length [g1, g2] = length fl"
    "\<forall>i < length fl. \<exists>f. select_feat example_lib vars (fl ! i) = Inr f
        \<and> shape ([g1, g2] ! i) = take (dim f - 2) (shape f)
                                      @ [shape f ! (dim f - 1), shape f ! (dim f - 2)]"
    by blast
  have e: "fl = [?r1, ?r2]" "w = ?w" using o(1) chk by simp_all
  have ev: "vars = ?vars" using o(2) f unfolding e by simp
  have "\<exists>f. select_feat example_lib ?vars ([?r1, ?r2] ! 0) = Inr f
        \<and> shape ([g1, g2] ! 0) = take (dim f - 2) (shape f)
                                      @ [shape f ! (dim f - 1), shape f ! (dim f - 2)]"
    using o(4) unfolding e ev by (elim allE[of _ 0]) simp
  then have a: "shape g1 = [2, 5, 3]" using f1 by (auto simp: dim_def)
  have "\<exists>f. select_feat example_lib ?vars ([?r1, ?r2] ! 1) = Inr f
        \<and> shape ([g1, g2] ! 1) = take (dim f - 2) (shape f)
                                      @ [shape f ! (dim f - 1), shape f ! (dim f - 2)]"
    using o(4) unfolding e ev by (elim allE[of _ 1]) simp
  then have b: "shape g2 = [2, 5, 2]" using f2 by (auto simp: dim_def)
  show ?thesis using run a b by (intro exI[of _ "[g1, g2]"]) simp
qed

subsection \<open>Further facts about the forward pass\<close>

text \<open>
  \<^verbatim>\<open>forward\<close> reads \<^verbatim>\<open>self._melscale\<close> at line 94. On an object that has the attributes
  the constructor assigns and no others, it fails there, after the analysis and the
  magnitude and phase decomposition.
\<close>

lemma forward_missing_melscale:
  assumes chk: "forward_checks self wavs fl0 = Inr (fl, w)"
    and an: "snd (analysis L self w) = Inr c"
    and mp: "torchaudio_magphase L 2 c = Inr lp"
    and no: "melscale self = None"
  shows "forward L self wavs fl0 = ([CallStft, CallMagphase], Inl (AttributeError ''_melscale''))"
proof -
  have a: "analysis L self w = ([CallStft], Inr c)"
    using an analysis_trace[OF an] by (cases "analysis L self w") simp
  have "features L self w (other_locals wavs)
        = ([CallStft, CallMagphase], Inl (AttributeError ''_melscale''))"
    unfolding features_def a
    by (cases lp) (simp add: bindT_Pair_Inr bindT_Pair_Inl callT_def pureT_def mp no)
  then show ?thesis using chk by (simp add: forward_def bindT_Pair_Inl)
qed

text \<open>
  The layout that \<^verbatim>\<open>forward\<close> gives a complex feature (line 96, then
  \<^verbatim>\<open>_transpose_list\<close>) is the interleaved form that \<^verbatim>\<open>istft\<close> accepts: on a paired tensor
  of shape \<open>(..., F, T, 2)\<close>, exchanging the last two axes, merging the axes of \<open>F\<close> and
  of the pair, and exchanging the last two axes again gives \<open>interleaved\<close>.
\<close>

lemma forward_layout_interleaved:
  assumes w: "wf p" and sh: "shape p = bs @ [F, T, 2]"
  shows "bindE (transpose_last2 p) (\<lambda>x.
         bindE (reshape x (map int (bs @ [2 * F, T]))) transpose_last2) = Inr (interleaved p)"
proof -
  let ?B = "prod_list bs"
  have len: "length (data p) = ?B * F * T * 2" using w sh by (simp add: wf_def)
  let ?ys = "swap_axes T 2 1 (data p)"
  have t1: "transpose_last2 p = Inr (Tensor (bs @ [F, 2, T]) ?ys)"
    using sh by (simp add: transpose_last2_def dim_def Let_def nth_append)
  have "prod_list (bs @ [2 * F, T]) = length ?ys"
    using len by (simp add: length_swap_axes)
  then have rs: "reshape (Tensor (bs @ [F, 2, T]) ?ys) (map int (bs @ [2 * F, T]))
            = Inr (Tensor (bs @ [2 * F, T]) ?ys)"
    using reshape_exact[of "bs @ [2 * F, T]" "Tensor (bs @ [F, 2, T]) ?ys"] by simp
  have t2: "transpose_last2 (Tensor (bs @ [2 * F, T]) ?ys)
            = Inr (Tensor (bs @ [T, 2 * F]) (swap_axes (2 * F) T 1 ?ys))"
    by (simp add: transpose_last2_def dim_def Let_def nth_append)
  have eq: "swap_axes (2 * F) T 1 ?ys = swap_axes F T 2 (data p)"
  proof (rule nth_equalityI)
    show "length (swap_axes (2 * F) T 1 ?ys) = length (swap_axes F T 2 (data p))"
      by (simp add: length_swap_axes)
    fix q assume "q < length (swap_axes (2 * F) T 1 ?ys)"
    then have q: "q < ?B * F * T * 2" using len by (simp add: length_swap_axes)
    then have pos: "0 < F" "0 < T" by (cases F; cases T; simp)+
    define c where "c = q mod 2"
    define f where "f = (q div 2) mod F"
    define t where "t = (q div (2 * F)) mod T"
    define h where "h = q div (2 * F * T)"
    have dq: "q = ((h * T + t) * F + f) * 2 + c"
      unfolding c_def f_def t_def h_def by (rule index_decompose)
    have bd: "t < T" "f < F" "c < 2" using pos by (simp_all add: c_def f_def t_def)
    have "q < ?B * (2 * F * T)" using q by (simp add: ac_simps)
    then have h: "h < ?B" unfolding h_def by (rule less_mult_imp_div_less)
    have i1: "2 * f + c < 2 * F" using bd by simp
    have hf: "h * F + f < ?B * F" using h bd(2) by (rule index_step)
    have l1: "length ?ys = ?B * (2 * F) * T * 1" using len by (simp add: length_swap_axes)
    have l0: "length (data p) = (?B * F) * T * 2 * 1" using len by simp
    have e1: "((h * T + t) * (2 * F) + (2 * f + c)) * 1 + 0 = q"
      unfolding dq by (simp add: algebra_simps)
    have e2: "((h * (2 * F) + (2 * f + c)) * T + t) * 1 + 0 = (((h * F + f) * 2 + c) * T + t) * 1 + 0"
      by (simp add: algebra_simps)
    have e3: "(((h * F + f) * T + t) * 2 + c) * 1 + 0 = ((h * F + f) * T + t) * 2 + c"
      by simp
    have s1: "swap_axes (2 * F) T 1 ?ys ! (((h * T + t) * (2 * F) + (2 * f + c)) * 1 + 0)
          = ?ys ! (((h * (2 * F) + (2 * f + c)) * T + t) * 1 + 0)"
      using l1 h i1 bd(1) by (rule swap_axes_nth) simp
    have s2: "?ys ! ((((h * F + f) * 2 + c) * T + t) * 1 + 0)
               = data p ! ((((h * F + f) * T + t) * 2 + c) * 1 + 0)"
      using l0 hf bd(1,3) by (rule swap_axes_nth) simp
    have s3: "swap_axes F T 2 (data p) ! (((h * T + t) * F + f) * 2 + c)
               = data p ! (((h * F + f) * T + t) * 2 + c)"
      using len h bd(2,1,3) by (rule swap_axes_nth)
    have "swap_axes (2 * F) T 1 ?ys ! q = data p ! (((h * F + f) * T + t) * 2 + c)"
      using s1 s2 unfolding e1 e2 e3 by (rule trans)
    moreover have "swap_axes F T 2 (data p) ! q = data p ! (((h * F + f) * T + t) * 2 + c)"
      using s3 unfolding dq[symmetric] .
    ultimately show "swap_axes (2 * F) T 1 ?ys ! q = swap_axes F T 2 (data p) ! q"
      by (rule trans[OF _ sym])
  qed
  show ?thesis
    unfolding interleaved_swap[OF sh] using t1 rs t2 eq by (simp add: bindE_def)
qed

end
